theory Spec2Isabelle
  imports Complex_Main "HOL-Library.AList"
begin

section \<open>JavaScript values and strings\<close>

text \<open>
  The program is src/helpers.js of the Fortuneo bank connector. Its functions work on
  JavaScript strings, on plain objects read from a JSON file and on one module-level
  object that they mutate. The model makes each of these explicit.

  Strings are \<^typ>\<open>string\<close>; the model reads them as ASCII text. Case mapping and the
  white space class are the ASCII part of what JavaScript defines (a character above
  127 is left alone by \<open>toUpperCase\<close> and is no white space here).
\<close>

datatype js_error = TypeError

definition isWhiteSpace :: "char \<Rightarrow> bool" where
  \<comment> \<open>the class \<open>\s\<close>, and what \<open>trim\<close> removes: TAB, LF, VT, FF, CR, SP\<close>
  "isWhiteSpace c \<longleftrightarrow> c \<in> set [CHR 0x09, CHR 0x0A, CHR 0x0B, CHR 0x0C, CHR 0x0D, CHR 0x20]"

definition isDigit :: "char \<Rightarrow> bool" where
  "isDigit c \<longleftrightarrow> c \<in> set ''0123456789''"

definition lower_case_letters :: string where
  "lower_case_letters = ''abcdefghijklmnopqrstuvwxyz''"

definition upper_case_letters :: string where
  "upper_case_letters = ''ABCDEFGHIJKLMNOPQRSTUVWXYZ''"

definition toUpperCase_char :: "char \<Rightarrow> char" where
  "toUpperCase_char c =
     (case map_of (zip lower_case_letters upper_case_letters) c of
        None \<Rightarrow> c
      | Some u \<Rightarrow> u)"

definition toUpperCase :: "string \<Rightarrow> string" where
  "toUpperCase s = map toUpperCase_char s"

definition trim :: "string \<Rightarrow> string" where
  "trim s = rev (dropWhile isWhiteSpace (rev (dropWhile isWhiteSpace s)))"

text \<open>
  \<open>s.replace(pattern, replacement)\<close> with a string pattern replaces the first
  occurrence only.
\<close>

fun replace :: "string \<Rightarrow> string \<Rightarrow> string \<Rightarrow> string" where
  "replace pattern replacement [] = (if pattern = [] then replacement else [])"
| "replace pattern replacement (c # cs) =
     (if take (length pattern) (c # cs) = pattern
      then replacement @ drop (length pattern) (c # cs)
      else c # replace pattern replacement cs)"

text \<open>
  A regular expression literal, as far as this program writes one: a single character
  class and the \<open>g\<close> flag. \<open>/\s/\<close> is \<open>whitespace_regexp\<close>: it has no flag.

  \<open>String.prototype.replaceAll(searchValue, replaceValue)\<close>, as ECMAScript defines it
  (step 2.b of the method): when \<open>searchValue\<close> is a regular expression whose flags do
  not contain \<open>g\<close>, a TypeError is thrown. (On an engine older than ECMAScript 2021 the
  method does not exist and the call is a TypeError as well.) With the flag, every match
  is replaced.
\<close>

record regexp =
  char_class :: "char \<Rightarrow> bool"
  global :: bool

definition whitespace_regexp :: regexp where
  "whitespace_regexp = \<lparr>char_class = isWhiteSpace, global = False\<rparr>"

definition replaceAll :: "regexp \<Rightarrow> string \<Rightarrow> string \<Rightarrow> js_error + string" where
  "replaceAll searchValue replaceValue s =
     (if \<not> global searchValue then Inl TypeError
      else Inr (concat (map (\<lambda>c. if char_class searchValue c then replaceValue else [c]) s)))"

text \<open>
  \<open>parseFloat\<close>: skip leading white space, take the longest prefix that is a
  StrDecimalLiteral, NaN when there is none. The model gives the exact decimal value of
  the literal; the rounding to a binary64 number and the sign of zero are not modelled.
\<close>

datatype jsnumber = NaN | Infinity | NegInfinity | Num rat

definition digits_value :: "string \<Rightarrow> nat" where
  "digits_value ds = foldl (\<lambda>a c. 10 * a + (of_char c - 48)) 0 ds"

definition split_sign :: "string \<Rightarrow> int \<times> string" where
  "split_sign s =
     (case s of
        [] \<Rightarrow> (1, [])
      | c # cs \<Rightarrow> if c = CHR ''-'' then (- 1, cs) else if c = CHR ''+'' then (1, cs) else (1, s))"

definition exponent_part :: "string \<Rightarrow> int" where
  "exponent_part s =
     (case s of
        [] \<Rightarrow> 0
      | c # cs \<Rightarrow>
          if c = CHR ''e'' \<or> c = CHR ''E''
          then (let (sg, r) = split_sign cs; ds = takeWhile isDigit r
                in if ds = [] then 0 else sg * int (digits_value ds))
          else 0)"

definition parseFloat :: "string \<Rightarrow> jsnumber" where
  "parseFloat string =
     (let (sg, body) = split_sign (dropWhile isWhiteSpace string)
      in if take 8 body = ''Infinity'' then (if sg = 1 then Infinity else NegInfinity)
         else
           let ip = takeWhile isDigit body;
               r1 = dropWhile isDigit body;
               (fp, r2) = (case r1 of
                             [] \<Rightarrow> ([], [])
                           | c # cs \<Rightarrow> if c = CHR ''.''
                                       then (takeWhile isDigit cs, dropWhile isDigit cs)
                                       else ([], r1))
           in if ip = [] \<and> fp = [] then NaN
              else
                let ex = exponent_part r2;
                    mantissa = of_int sg * of_nat (digits_value (ip @ fp)) / 10 ^ length fp
                in Num (if 0 \<le> ex then mantissa * 10 ^ nat ex else mantissa / 10 ^ nat (- ex)))"


section \<open>normalizeAmount\<close>

text \<open>
  \<^verbatim>\<open>
  function normalizeAmount(amount) {
    return parseFloat(
      amount
        .replaceAll(/\s/, '')
        .replace(',', '.')
        .trim()
    )
  }
  \<close>
\<close>

definition normalizeAmount :: "string \<Rightarrow> js_error + jsnumber" where
  "normalizeAmount amount =
     (case replaceAll whitespace_regexp '''' amount of
        Inl e \<Rightarrow> Inl e
      | Inr stripped \<Rightarrow> Inr (parseFloat (trim (replace '','' ''.'' stripped))))"


section \<open>JSON values and property reads\<close>

text \<open>
  \<open>classification.json\<close> is not among the sources, so the classification tree is a
  parameter of the model: any JSON value. A number is the exact value of its literal
  (the rounding to binary64 is not modelled). \<open>None\<close> of type \<^typ>\<open>'a option\<close> stands
  for \<open>undefined\<close>.
\<close>

datatype json =
    JNull
  | JBool bool
  | JNum rat
  | JStr string
  | JArr "json list"
  | JObj "(string \<times> json) list"

fun truthy :: "json \<Rightarrow> bool" where
  "truthy JNull = False"
| "truthy (JBool b) = b"
| "truthy (JNum n) = (n \<noteq> 0)"
| "truthy (JStr s) = (s \<noteq> [])"
| "truthy (JArr xs) = True"
| "truthy (JObj kvs) = True"

definition index_of_key :: "string \<Rightarrow> nat option" where
  \<comment> \<open>a property key that is a canonical array index: \<open>"0"\<close>, \<open>"17"\<close>, not \<open>"017"\<close>\<close>
  "index_of_key k =
     (if k \<noteq> [] \<and> list_all isDigit k \<and> (k = ''0'' \<or> hd k \<noteq> CHR ''0'')
      then Some (digits_value k) else None)"

text \<open>
  \<open>v[k]\<close> for a value \<open>v\<close> that is not \<open>null\<close>: the own properties of an object, the
  elements of an array, the characters of a string. Properties inherited from the
  built-in prototypes (and \<open>length\<close>) are left out of this function: their names all
  contain a lower-case letter and none of them is \<open>_id\<close>, \<open>_proba\<close>, \<open>_type\<close>,
  \<open>_credit\<close> or \<open>_debit\<close>, and the program reads a JSON value only at these five keys
  and at upper-cased words (lemma \<open>toUpperCase_not_inherited\<close> below).
\<close>

fun own_property :: "json \<Rightarrow> string \<Rightarrow> json option" where
  "own_property (JObj kvs) k = map_of kvs k"
| "own_property (JArr xs) k =
     (case index_of_key k of
        None \<Rightarrow> None
      | Some i \<Rightarrow> if i < length xs then Some (xs ! i) else None)"
| "own_property (JStr s) k =
     (case index_of_key k of
        None \<Rightarrow> None
      | Some i \<Rightarrow> if i < length s then Some (JStr [s ! i]) else None)"
| "own_property v k = None"

text \<open>Reading a property of \<open>null\<close> raises a TypeError.\<close>

definition get_property :: "json \<Rightarrow> string \<Rightarrow> js_error + json option" where
  "get_property v k = (if v = JNull then Inl TypeError else Inr (own_property v k))"

text \<open>
  The names of the properties of \<open>Object.prototype\<close>, which every object literal
  inherits. Each of them holds a function or (for \<open>__proto__\<close>) an object: a truthy
  value.
\<close>

definition object_prototype_keys :: "string list" where
  "object_prototype_keys =
     [''constructor'', ''__defineGetter__'', ''__defineSetter__'', ''hasOwnProperty'',
      ''__lookupGetter__'', ''__lookupSetter__'', ''isPrototypeOf'',
      ''propertyIsEnumerable'', ''toString'', ''valueOf'', ''__proto__'',
      ''toLocaleString'']"


section \<open>Constants of the module\<close>

text \<open>
  \<^verbatim>\<open>
  const defaultMedataOperation = { _id: '0', _proba: 0, _type: 'none' }
  \<close>
  An object with three keys, in this order (\<open>Object.keys\<close> walks them in this order).
  The constant below is the content of the object when the module is loaded. The object
  itself is shared by every call, so the functions that write into it take its current
  content and return the new one.
\<close>

type_synonym metadata = "(string \<times> json) list"

definition defaultMedataOperation :: metadata where
  "defaultMedataOperation = [(''_id'', JStr ''0''), (''_proba'', JNum 0), (''_type'', JStr ''none'')]"

text \<open>
  The account types. \<open>scrape4Balance\<close> is \<open>null\<close> or a selector with the options
  \<open>{ sel, parse: normalizeAmount }\<close>; the field \<open>parse\<close> is the function itself.
\<close>

record scrape_opts =
  opts_sel :: string
  parse :: "string \<Rightarrow> js_error + jsnumber"

record scrape =
  sel :: string
  opts :: scrape_opts

record AccountTypeDescriptor =
  acc_id :: nat
  acc_type :: string
  scrape4Balance :: "scrape option"

definition UNKNOWN :: AccountTypeDescriptor where
  "UNKNOWN = \<lparr>acc_id = 0, acc_type = ''Unknown'', scrape4Balance = None\<rparr>"

definition CHECKINGS :: AccountTypeDescriptor where
  "CHECKINGS = \<lparr>acc_id = 1, acc_type = ''Checkings'',
     scrape4Balance = Some \<lparr>sel = ''#tableauConsultationHisto'',
       opts = \<lparr>opts_sel = ''td>strong'', parse = normalizeAmount\<rparr>\<rparr>\<rparr>"

definition CREDITCARD :: AccountTypeDescriptor where
  "CREDITCARD = \<lparr>acc_id = 2, acc_type = ''CreditCard'',
     scrape4Balance = Some \<lparr>sel = ''#tableauConsultationHisto'',
       opts = \<lparr>opts_sel = ''td>a>strong'', parse = normalizeAmount\<rparr>\<rparr>\<rparr>"

definition SAVINGS :: AccountTypeDescriptor where
  "SAVINGS = \<lparr>acc_id = 3, acc_type = ''Savings'',
     scrape4Balance = Some \<lparr>sel = ''div.synthese_livret_cat a'',
       opts = \<lparr>opts_sel = ''p.synthese_data_line_right_text'', parse = normalizeAmount\<rparr>\<rparr>\<rparr>"

definition MARKET :: AccountTypeDescriptor where
  "MARKET = \<lparr>acc_id = 4, acc_type = ''Market'',
     scrape4Balance = Some \<lparr>sel = ''#valorisation_compte>table>tbody>tr'',
       opts = \<lparr>opts_sel = ''td.gras'', parse = normalizeAmount\<rparr>\<rparr>\<rparr>"

definition LIFEINSURANCE :: AccountTypeDescriptor where
  "LIFEINSURANCE = \<lparr>acc_id = 5, acc_type = ''LifeInsurance'',
     scrape4Balance = Some \<lparr>sel = ''div.synthese_vie>div>div.colonne_gauche>div>p>span'',
       opts = \<lparr>opts_sel = ''strong'', parse = normalizeAmount\<rparr>\<rparr>\<rparr>"

definition AbbrToAccountType :: "(string \<times> AccountTypeDescriptor) list" where
  "AbbrToAccountType =
     [(''cco'', CHECKINGS), (''esp'', CHECKINGS),
      (''liv_a'', SAVINGS), (''liv_d'', SAVINGS), (''liv_p'', SAVINGS),
      (''ord'', MARKET), (''pea'', MARKET),
      (''vie'', LIFEINSURANCE)]"


section \<open>getAccountTypeFromCSS\<close>

text \<open>
  \<open>s.split(' ')\<close>: the pieces of \<open>s\<close> between single space characters; at least one
  piece, possibly empty.
\<close>

fun split :: "char \<Rightarrow> string \<Rightarrow> string list" where
  "split separator [] = [[]]"
| "split separator (c # cs) =
     (if c = separator then [] # split separator cs
      else (case split separator cs of
              [] \<Rightarrow> [[c]]
            | piece # pieces \<Rightarrow> (c # piece) # pieces))"

text \<open>
  \<open>AbbrToAccountType\<close> is an object literal, so \<open>AbbrToAccountType[k]\<close> finds the own
  property \<open>k\<close> or else the property \<open>k\<close> of \<open>Object.prototype\<close>.
\<close>

datatype 'a property = Own 'a | Inherited string

definition literal_property :: "(string \<times> 'a) list \<Rightarrow> string \<Rightarrow> 'a property option" where
  "literal_property obj k =
     (case map_of obj k of
        Some v \<Rightarrow> Some (Own v)
      | None \<Rightarrow> if k \<in> set object_prototype_keys then Some (Inherited k) else None)"

text \<open>
  \<^verbatim>\<open>
  function getAccountTypeFromCSS(cssClasses) {
    let cssClass = cssClasses.split(' ')
    // Keep only the first class: e.g. 'cco compte' -> 'cco'
    return AbbrToAccountType[cssClass[0]] || AccountType.UNKNOWN
  }
  \<close>
  Every value \<open>AbbrToAccountType[k]\<close> can have is an object or a function, hence truthy;
  \<open>||\<close> takes its right operand only for \<open>undefined\<close>. The index \<open>0\<close> of an empty array
  would give \<open>undefined\<close>, which as a key reads \<open>"undefined"\<close>.
\<close>

definition getAccountTypeFromCSS :: "string \<Rightarrow> AccountTypeDescriptor property" where
  "getAccountTypeFromCSS cssClasses =
     (let cssClass = split CHR '' '' cssClasses;
          first = (case cssClass of [] \<Rightarrow> ''undefined'' | c # _ \<Rightarrow> c)
      in case literal_property AbbrToAccountType first of
           Some v \<Rightarrow> v
         | None \<Rightarrow> Own UNKNOWN)"

text \<open>The first class as the code takes it: the characters before the first space.\<close>

definition first_class :: "string \<Rightarrow> string" where
  "first_class cssClasses = takeWhile (\<lambda>c. c \<noteq> CHR '' '') cssClasses"

text \<open>
  The reading of the specification's "split on whitespace, take only the first token":
  the characters before the first white space character.
\<close>

definition spec_first_token :: "string \<Rightarrow> string" where
  "spec_first_token s = takeWhile (\<lambda>c. \<not> isWhiteSpace c) s"


section \<open>The classification walk\<close>

text \<open>
  \<^verbatim>\<open>
  function _readDefaultMetaData(treeMetadata, metadata) {
    Object.keys(metadata).forEach(key => {
      if (treeMetadata[key]) metadata[key] = treeMetadata[key]
    })
  }
  \<close>
  No Isabelle name starts with an underscore: the private functions
  \<open>_readDefaultMetaData\<close> and \<open>_readSpecificMetaData\<close> lose theirs, and
  \<open>_classification\<close> is \<open>classification_walk\<close> (\<open>classification\<close> is the tree).
  \<open>forEach_key\<close> is the \<open>forEach\<close> over the keys.
\<close>

fun forEach_key :: "json \<Rightarrow> string list \<Rightarrow> metadata \<Rightarrow> js_error + metadata" where
  "forEach_key treeMetadata [] metadata = Inr metadata"
| "forEach_key treeMetadata (key # keys) metadata =
     (case get_property treeMetadata key of
        Inl e \<Rightarrow> Inl e
      | Inr None \<Rightarrow> forEach_key treeMetadata keys metadata
      | Inr (Some v) \<Rightarrow>
          forEach_key treeMetadata keys
            (if truthy v then AList.update key v metadata else metadata))"

definition readDefaultMetaData :: "json \<Rightarrow> metadata \<Rightarrow> js_error + metadata" where
  "readDefaultMetaData treeMetadata metadata =
     forEach_key treeMetadata (map fst metadata) metadata"

text \<open>
  \<^verbatim>\<open>
  function _readSpecificMetaData(treeMetadata, typeOperation, metadata) {
    _readDefaultMetaData(treeMetadata, metadata)
    if (treeMetadata[typeOperation]) {
      _readDefaultMetaData(treeMetadata[typeOperation], metadata)
    }
    return metadata
  }
  \<close>
\<close>

definition readSpecificMetaData :: "json \<Rightarrow> string \<Rightarrow> metadata \<Rightarrow> js_error + metadata" where
  "readSpecificMetaData treeMetadata typeOperation metadata =
     (case readDefaultMetaData treeMetadata metadata of
        Inl e \<Rightarrow> Inl e
      | Inr metadata' \<Rightarrow>
          (case get_property treeMetadata typeOperation of
             Inl e \<Rightarrow> Inl e
           | Inr None \<Rightarrow> Inr metadata'
           | Inr (Some sub) \<Rightarrow>
               if truthy sub then readDefaultMetaData sub metadata' else Inr metadata'))"

text \<open>
  \<^verbatim>\<open>
  function _classification(words, metadata, fnReadMetadata) {
    let treeActive = classification[words[0].toUpperCase()]
    if (!treeActive) {
      return metadata
    }
    let index = words[0] === 'CARTE' ? 2 : 1
    fnReadMetadata(treeActive, metadata)
    for (let word of words.slice(index)) {
      let tree = treeActive[word.toUpperCase()]
      if (!tree) {
        return metadata
      }
      fnReadMetadata(tree, metadata)
      treeActive = tree
    }
  }
  \<close>
  The result is a pair: what the function returns (\<open>Some\<close> of the object \<open>metadata\<close>,
  or \<open>None\<close> for \<open>undefined\<close>) and the content of the object \<open>metadata\<close> afterwards.
  The object that is returned is the object that was passed in, so a returned content is
  always the final content. \<open>for_of\<close> is the \<open>for\<close> loop; a function that reaches the end
  of its body returns \<open>undefined\<close>.
\<close>

fun for_of ::
  "string list \<Rightarrow> json \<Rightarrow> metadata \<Rightarrow> (json \<Rightarrow> metadata \<Rightarrow> js_error + metadata)
     \<Rightarrow> js_error + (metadata option \<times> metadata)" where
  "for_of [] treeActive metadata fnReadMetadata = Inr (None, metadata)"
| "for_of (word # rest) treeActive metadata fnReadMetadata =
     (case get_property treeActive (toUpperCase word) of
        Inl e \<Rightarrow> Inl e
      | Inr None \<Rightarrow> Inr (Some metadata, metadata)
      | Inr (Some tree) \<Rightarrow>
          if \<not> truthy tree then Inr (Some metadata, metadata)
          else (case fnReadMetadata tree metadata of
                  Inl e \<Rightarrow> Inl e
                | Inr metadata' \<Rightarrow> for_of rest tree metadata' fnReadMetadata))"

definition classification_walk ::
  "json \<Rightarrow> string list \<Rightarrow> metadata \<Rightarrow> (json \<Rightarrow> metadata \<Rightarrow> js_error + metadata)
     \<Rightarrow> js_error + (metadata option \<times> metadata)" where
  "classification_walk classification words metadata fnReadMetadata =
     (case words of
        [] \<Rightarrow> Inl TypeError
      | word0 # _ \<Rightarrow>
          (case get_property classification (toUpperCase word0) of
             Inl e \<Rightarrow> Inl e
           | Inr None \<Rightarrow> Inr (Some metadata, metadata)
           | Inr (Some treeActive) \<Rightarrow>
               if \<not> truthy treeActive then Inr (Some metadata, metadata)
               else
                 let index = (if word0 = ''CARTE'' then 2 else 1 :: nat)
                 in (case fnReadMetadata treeActive metadata of
                       Inl e \<Rightarrow> Inl e
                     | Inr metadata' \<Rightarrow>
                         for_of (drop index words) treeActive metadata' fnReadMetadata)))"

text \<open>
  \<^verbatim>\<open>
  function findMetadataForCreditOperation(words) {
    return _classification(words, defaultMedataOperation, (tree, metadata) =>
      _readSpecificMetaData(tree, '_credit', metadata)
    )
  }
  \<close>
  and the same with \<open>'_debit'\<close>. Both pass the module's object \<open>defaultMedataOperation\<close>
  itself, not a copy. The argument \<open>store\<close> is the content of that object when the call
  starts: \<^const>\<open>defaultMedataOperation\<close> for the first call after the module is loaded.
\<close>

definition findMetadataForCreditOperation ::
  "json \<Rightarrow> metadata \<Rightarrow> string list \<Rightarrow> js_error + (metadata option \<times> metadata)" where
  "findMetadataForCreditOperation classification store words =
     classification_walk classification words store
       (\<lambda>tree metadata. readSpecificMetaData tree ''_credit'' metadata)"

definition findMetadataForDebitOperation ::
  "json \<Rightarrow> metadata \<Rightarrow> string list \<Rightarrow> js_error + (metadata option \<times> metadata)" where
  "findMetadataForDebitOperation classification store words =
     classification_walk classification words store
       (\<lambda>tree metadata. readSpecificMetaData tree ''_debit'' metadata)"

subsection \<open>Notions for the statements\<close>

text \<open>
  Notions the statements below use. \<open>is_truthy\<close> is the truthiness of the result
  of a property read (\<open>undefined\<close> is falsy). \<open>walk_consumes node words\<close> says that
  the loop, started at \<open>node\<close>, finds a truthy child for each of \<open>words\<close> in turn.
\<close>

definition is_truthy :: "json option \<Rightarrow> bool" where
  "is_truthy x = (case x of None \<Rightarrow> False | Some v \<Rightarrow> truthy v)"

definition truthy_field :: "json \<Rightarrow> string \<Rightarrow> json option" where
  \<comment> \<open>the value of \<open>node[k]\<close> when it is truthy: what \<open>if (node[k])\<close> lets through\<close>
  "truthy_field node k =
     (case own_property node k of
        None \<Rightarrow> None
      | Some v \<Rightarrow> if truthy v then Some v else None)"

fun walk_consumes :: "json \<Rightarrow> string list \<Rightarrow> bool" where
  "walk_consumes treeActive [] = True"
| "walk_consumes treeActive (word # rest) =
     (case own_property treeActive (toUpperCase word) of
        None \<Rightarrow> False
      | Some tree \<Rightarrow> truthy tree \<and> walk_consumes tree rest)"

text \<open>
  The nodes a walk matches, in order: the root found for the first word and then the
  children found for the words from the start index on, up to the first miss.
\<close>

fun matched_children :: "json \<Rightarrow> string list \<Rightarrow> json list" where
  "matched_children treeActive [] = []"
| "matched_children treeActive (word # rest) =
     (case own_property treeActive (toUpperCase word) of
        None \<Rightarrow> []
      | Some tree \<Rightarrow> if truthy tree then tree # matched_children tree rest else [])"

definition matched_nodes :: "json \<Rightarrow> string list \<Rightarrow> json list" where
  "matched_nodes classification words =
     (case words of
        [] \<Rightarrow> []
      | word0 # _ \<Rightarrow>
          (case own_property classification (toUpperCase word0) of
             None \<Rightarrow> []
           | Some treeActive \<Rightarrow>
               if truthy treeActive
               then treeActive #
                 matched_children treeActive (drop (if word0 = ''CARTE'' then 2 else 1) words)
               else []))"

text \<open>
  \<open>node_write typeOperation node k\<close> is the value that a node offers for the key \<open>k\<close>
  to a walk of the polarity \<open>typeOperation\<close>: the truthy value of \<open>k\<close> in the node's
  sub-record \<open>typeOperation\<close> when there is one, else the truthy value of \<open>k\<close> in
  the node itself, else nothing. \<open>path_write\<close> is the offer of the deepest node of a
  path that offers anything.
\<close>

definition node_write :: "string \<Rightarrow> json \<Rightarrow> string \<Rightarrow> json option" where
  "node_write typeOperation node k =
     (case (case truthy_field node typeOperation of
              None \<Rightarrow> None
            | Some sub \<Rightarrow> truthy_field sub k) of
        Some v \<Rightarrow> Some v
      | None \<Rightarrow> truthy_field node k)"

fun path_write :: "string \<Rightarrow> json list \<Rightarrow> string \<Rightarrow> json option" where
  "path_write typeOperation [] k = None"
| "path_write typeOperation (node # nodes) k =
     (case path_write typeOperation nodes k of
        Some v \<Rightarrow> Some v
      | None \<Rightarrow> node_write typeOperation node k)"

text \<open>
  The wording "the node's default fields overwrite the accumulator, then the fields of
  the sub-record overwrite again", taken literally: every field that is present
  overwrites, whatever its value.
\<close>

definition spec_readSpecificMetaData :: "json \<Rightarrow> string \<Rightarrow> metadata \<Rightarrow> metadata" where
  "spec_readSpecificMetaData node typeOperation metadata =
     map (\<lambda>(k, old).
            (k, case (case own_property node typeOperation of
                        None \<Rightarrow> None
                      | Some sub \<Rightarrow> own_property sub k) of
                  Some v \<Rightarrow> v
                | None \<Rightarrow> (case own_property node k of Some v \<Rightarrow> v | None \<Rightarrow> old)))
         metadata"

subsection \<open>Example trees\<close>

text \<open>
  A small tree in the shape the walk expects, used to evaluate the functions on concrete
  words: a root \<open>VIR\<close> with the default \<open>_id: '5'\<close> and the credit override
  \<open>_proba: 90\<close>, and a root \<open>CARTE\<close> with two children, \<open>RESTAURANT\<close> and \<open>1234\<close>.
  \<^verbatim>\<open>
  { "VIR":   { "_id": "5", "_credit": { "_proba": 90 } },
    "CARTE": { "_id": "7",
               "RESTAURANT": { "_id": "8", "_proba": 50 },
               "1234": { "_id": "9" } } }
  \<close>
\<close>

definition VIR_node :: json where
  "VIR_node = JObj [(''_id'', JStr ''5''), (''_credit'', JObj [(''_proba'', JNum 90)])]"

definition CARTE_node :: json where
  "CARTE_node =
     JObj [(''_id'', JStr ''7''),
           (''RESTAURANT'', JObj [(''_id'', JStr ''8''), (''_proba'', JNum 50)]),
           (''1234'', JObj [(''_id'', JStr ''9'')])]"

definition example_tree :: json where
  "example_tree = JObj [(''VIR'', VIR_node), (''CARTE'', CARTE_node)]"

text \<open>
  A tree whose nodes carry both sub-records, and a falsy override:
  \<^verbatim>\<open>
  { "PRLV": { "_id": "3", "_proba": 50,
              "_credit": { "_proba": 0 },
              "_debit": { "_proba": 10 },
              "EDF": { "_credit": { "_id": "4" }, "_debit": { "_id": "6" } } } }
  \<close>
\<close>

definition EDF_node :: json where
  "EDF_node = JObj [(''_credit'', JObj [(''_id'', JStr ''4'')]),
                    (''_debit'', JObj [(''_id'', JStr ''6'')])]"

definition PRLV_node :: json where
  "PRLV_node =
     JObj [(''_id'', JStr ''3''), (''_proba'', JNum 50),
           (''_credit'', JObj [(''_proba'', JNum 0)]),
           (''_debit'', JObj [(''_proba'', JNum 10)]),
           (''EDF'', EDF_node)]"

definition override_tree :: json where
  "override_tree = JObj [(''PRLV'', PRLV_node)]"


section \<open>handleRequestErrors\<close>

text \<open>
  A value that can be thrown or rejected: an object, with the names of the constructors
  on its prototype chain and its message, or any other value. \<open>err instanceof C\<close> holds
  when \<open>C\<close> is on the chain. \<open>RequestError\<close> and \<open>StatusCodeError\<close> are the classes of
  request-promise; \<open>errors.VENDOR_DOWN\<close> is the string constant of cozy-konnector-libs.
\<close>

datatype err_value = ErrorObject "string list" string | OtherValue json

fun instanceof :: "err_value \<Rightarrow> string \<Rightarrow> bool" where
  "instanceof (ErrorObject chain message) c = (c \<in> set chain)"
| "instanceof (OtherValue v) c = False"

definition VENDOR_DOWN :: string where
  "VENDOR_DOWN = ''VENDOR_DOWN''"

datatype outcome = Throws err_value | ReturnsRejected err_value

text \<open>
  \<^verbatim>\<open>
  function handleRequestErrors(err) {
    if (
      err instanceof rerrors.RequestError ||
      err instanceof rerrors.StatusCodeError
    ) {
      log('error', err)
      throw new Error(errors.VENDOR_DOWN)
    } else {
      return Promise.reject(err)
    }
  }
  \<close>
  The second component is what the call passes to \<open>log\<close>.
\<close>

definition handleRequestErrors :: "err_value \<Rightarrow> outcome \<times> (string \<times> err_value) list" where
  "handleRequestErrors err =
     (if instanceof err ''RequestError'' \<or> instanceof err ''StatusCodeError''
      then (Throws (ErrorObject [''Error''] VENDOR_DOWN), [(''error'', err)])
      else (ReturnsRejected err, []))"


section \<open>Upper-cased words are no inherited property names\<close>

lemma toUpperCase_char_not_lower: "toUpperCase_char c \<notin> set lower_case_letters"
proof (cases "c \<in> set lower_case_letters")
  case True
  then show ?thesis
    unfolding toUpperCase_char_def lower_case_letters_def upper_case_letters_def
    by (elim insertE emptyE | simp)+
next
  case False
  then have "map_of (zip lower_case_letters upper_case_letters) c = None"
    by (simp add: map_of_eq_None_iff lower_case_letters_def upper_case_letters_def)
  with False show ?thesis by (simp add: toUpperCase_char_def)
qed

lemma toUpperCase_no_lower: "set (toUpperCase w) \<inter> set lower_case_letters = {}"
  using toUpperCase_char_not_lower by (auto simp: toUpperCase_def)

lemma prototype_keys_lower:
  "list_all (\<lambda>k. CHR ''t'' \<in> set k \<or> CHR ''e'' \<in> set k) object_prototype_keys"
  by (simp add: object_prototype_keys_def)

lemma toUpperCase_not_inherited: "toUpperCase w \<notin> set object_prototype_keys"
proof
  assume "toUpperCase w \<in> set object_prototype_keys"
  with prototype_keys_lower
  have "CHR ''t'' \<in> set (toUpperCase w) \<or> CHR ''e'' \<in> set (toUpperCase w)"
    by (simp add: list_all_iff)
  moreover have "CHR ''t'' \<in> set lower_case_letters" "CHR ''e'' \<in> set lower_case_letters"
    by (simp_all add: lower_case_letters_def)
  ultimately show False
    using toUpperCase_no_lower [of w] by blast
qed

lemma toUpperCase_not_metadata_key:
  "toUpperCase w \<notin> set [''_id'', ''_proba'', ''_type'', ''_credit'', ''_debit'', ''length'']"
proof
  assume "toUpperCase w \<in> set [''_id'', ''_proba'', ''_type'', ''_credit'', ''_debit'', ''length'']"
  then have "CHR ''t'' \<in> set (toUpperCase w) \<or> CHR ''i'' \<in> set (toUpperCase w)
      \<or> CHR ''o'' \<in> set (toUpperCase w)"
    by (elim disjE | simp)+
  moreover have "CHR ''t'' \<in> set lower_case_letters" "CHR ''i'' \<in> set lower_case_letters"
    "CHR ''o'' \<in> set lower_case_letters"
    by (simp_all add: lower_case_letters_def)
  ultimately show False
    using toUpperCase_no_lower [of w] by blast
qed

lemma toUpperCase_CARTE: "toUpperCase ''CARTE'' = ''CARTE''"
  by (simp add: toUpperCase_def toUpperCase_char_def lower_case_letters_def upper_case_letters_def)


section \<open>Reading metadata from a node\<close>

lemma truthy_not_null: "truthy v \<Longrightarrow> v \<noteq> JNull"
  by (cases v) simp_all

lemma get_property_Inr: "v \<noteq> JNull \<Longrightarrow> get_property v k = Inr (own_property v k)"
  by (simp add: get_property_def)

lemma forEach_key_Inr: "t \<noteq> JNull \<Longrightarrow> \<exists>m'. forEach_key t keys m = Inr m'"
  by (induction keys arbitrary: m) (auto simp: get_property_Inr split: option.splits)

lemma forEach_key_lookup:
  "forEach_key t keys m = Inr m' \<Longrightarrow>
   map_of m' k = (if k \<in> set keys \<and> is_truthy (own_property t k) then own_property t k else map_of m k)"
proof (induction keys arbitrary: m)
  case Nil
  then show ?case by simp
next
  case (Cons key keys)
  then show ?case
    by (auto simp: get_property_def is_truthy_def update_conv' split: if_splits option.splits)
qed

lemma update_present_keys: "k \<in> fst ` set m \<Longrightarrow> map fst (AList.update k v m) = map fst m"
  by (simp add: update_keys)

lemma forEach_key_keys:
  "forEach_key t keys m = Inr m' \<Longrightarrow> set keys \<subseteq> fst ` set m \<Longrightarrow> map fst m' = map fst m"
proof (induction keys arbitrary: m)
  case Nil
  then show ?case by simp
next
  case (Cons key keys)
  from Cons.prems(2) have key: "key \<in> fst ` set m" and keys: "set keys \<subseteq> fst ` set m"
    by simp_all
  show ?case
  proof (cases "is_truthy (own_property t key)")
    case True
    then obtain v where v: "own_property t key = Some v" "truthy v"
      by (auto simp: is_truthy_def split: option.splits)
    with Cons.prems(1) have run: "forEach_key t keys (AList.update key v m) = Inr m'"
      by (simp add: get_property_def split: if_splits)
    have same: "map fst (AList.update key v m) = map fst m"
      using key by (rule update_present_keys)
    then have "set keys \<subseteq> fst ` set (AList.update key v m)"
      using keys by (metis set_map)
    from Cons.IH [OF run this] same show ?thesis by simp
  next
    case False
    with Cons.prems(1) have "forEach_key t keys m = Inr m'"
      by (auto simp: get_property_def is_truthy_def split: if_splits option.splits)
    from Cons.IH [OF this keys] show ?thesis .
  qed
qed

lemma forEach_key_cong:
  "t \<noteq> JNull \<Longrightarrow> t' \<noteq> JNull \<Longrightarrow> \<forall>k\<in>set keys. own_property t k = own_property t' k \<Longrightarrow>
   forEach_key t keys m = forEach_key t' keys m"
  by (induction keys arbitrary: m) (auto simp: get_property_Inr split: option.splits)

lemma readDefaultMetaData_Inr: "t \<noteq> JNull \<Longrightarrow> \<exists>m'. readDefaultMetaData t m = Inr m'"
  by (simp add: readDefaultMetaData_def forEach_key_Inr)

lemma readDefaultMetaData_lookup:
  "readDefaultMetaData t m = Inr m' \<Longrightarrow>
   map_of m' k = (if k \<in> fst ` set m \<and> is_truthy (own_property t k) then own_property t k else map_of m k)"
  unfolding readDefaultMetaData_def using forEach_key_lookup [of t "map fst m" m m' k] by simp

lemma readDefaultMetaData_keys:
  "readDefaultMetaData t m = Inr m' \<Longrightarrow> map fst m' = map fst m"
  unfolding readDefaultMetaData_def using forEach_key_keys [of t "map fst m" m m'] by simp

lemma readSpecificMetaData_Inr: "t \<noteq> JNull \<Longrightarrow> \<exists>m'. readSpecificMetaData t op m = Inr m'"
proof -
  assume t: "t \<noteq> JNull"
  then obtain m1 where m1: "readDefaultMetaData t m = Inr m1"
    using readDefaultMetaData_Inr by blast
  show ?thesis
  proof (cases "own_property t op")
    case None
    with t m1 show ?thesis by (simp add: readSpecificMetaData_def get_property_Inr)
  next
    case (Some sub)
    show ?thesis
    proof (cases "truthy sub")
      case True
      then obtain m2 where "readDefaultMetaData sub m1 = Inr m2"
        using readDefaultMetaData_Inr truthy_not_null by blast
      with t m1 Some True show ?thesis by (simp add: readSpecificMetaData_def get_property_Inr)
    next
      case False
      with t m1 Some show ?thesis by (simp add: readSpecificMetaData_def get_property_Inr)
    qed
  qed
qed

lemma truthy_field_iff: "truthy_field node k = Some v \<longleftrightarrow> own_property node k = Some v \<and> truthy v"
  by (auto simp: truthy_field_def split: option.splits)

lemma truthy_field_None: "truthy_field node k = None \<longleftrightarrow> \<not> is_truthy (own_property node k)"
  by (auto simp: truthy_field_def is_truthy_def split: option.splits)

lemma readDefaultMetaData_field:
  assumes "readDefaultMetaData t m = Inr m'"
  shows "map_of m' k =
           (case truthy_field t k of
              None \<Rightarrow> map_of m k
            | Some v \<Rightarrow> if k \<in> fst ` set m then Some v else map_of m k)"
  using readDefaultMetaData_lookup [OF assms, of k]
  by (auto simp: truthy_field_def is_truthy_def split: option.splits)

lemma readSpecificMetaData_cases:
  assumes "readSpecificMetaData node typeOperation metadata = Inr metadata'"
    and "node \<noteq> JNull"
  shows "\<exists>m1. readDefaultMetaData node metadata = Inr m1 \<and>
           (case truthy_field node typeOperation of
              None \<Rightarrow> metadata' = m1
            | Some sub \<Rightarrow> readDefaultMetaData sub m1 = Inr metadata')"
proof -
  from assms(2) obtain m1 where m1: "readDefaultMetaData node metadata = Inr m1"
    using readDefaultMetaData_Inr by blast
  with assms show ?thesis
    by (auto simp: readSpecificMetaData_def get_property_Inr truthy_field_def
        split: option.splits if_splits)
qed

lemma readSpecificMetaData_null:
  assumes "readSpecificMetaData JNull typeOperation metadata = Inr metadata'"
  shows "False"
  using assms
  by (cases metadata)
    (auto simp: readSpecificMetaData_def readDefaultMetaData_def get_property_def split: sum.splits)

lemma readSpecificMetaData_field:
  assumes "readSpecificMetaData node typeOperation metadata = Inr metadata'"
    and "k \<in> fst ` set metadata"
  shows "map_of metadata' k =
           (case (case truthy_field node typeOperation of
                    None \<Rightarrow> None
                  | Some sub \<Rightarrow> truthy_field sub k) of
              Some v \<Rightarrow> Some v
            | None \<Rightarrow> (case truthy_field node k of
                         Some v \<Rightarrow> Some v
                       | None \<Rightarrow> map_of metadata k))"
proof -
  from assms(1) have "node \<noteq> JNull"
    using readSpecificMetaData_null by blast
  from readSpecificMetaData_cases [OF assms(1) this]
  obtain m1 where m1: "readDefaultMetaData node metadata = Inr m1"
    and rest: "case truthy_field node typeOperation of
                 None \<Rightarrow> metadata' = m1
               | Some sub \<Rightarrow> readDefaultMetaData sub m1 = Inr metadata'"
    by blast
  have k1: "k \<in> fst ` set m1"
    using readDefaultMetaData_keys [OF m1] assms(2) by (metis set_map)
  have f1: "map_of m1 k = (case truthy_field node k of None \<Rightarrow> map_of metadata k | Some v \<Rightarrow> Some v)"
    using readDefaultMetaData_field [OF m1, of k] assms(2) by (simp split: option.splits)
  show ?thesis
  proof (cases "truthy_field node typeOperation")
    case None
    with rest f1 show ?thesis by (simp split: option.splits)
  next
    case (Some sub)
    with rest have "readDefaultMetaData sub m1 = Inr metadata'" by simp
    from readDefaultMetaData_field [OF this, of k] k1 f1 Some
    show ?thesis by (simp split: option.splits)
  qed
qed

lemma readSpecificMetaData_other_key:
  assumes "readSpecificMetaData node typeOperation metadata = Inr metadata'"
    and "k \<notin> fst ` set metadata"
  shows "map_of metadata' k = None"
proof (cases "node = JNull")
  case True
  with assms(1) show ?thesis using readSpecificMetaData_null by blast
next
  case False
  from readSpecificMetaData_cases [OF assms(1) False]
  obtain m1 where m1: "readDefaultMetaData node metadata = Inr m1"
    and rest: "case truthy_field node typeOperation of
                 None \<Rightarrow> metadata' = m1
               | Some sub \<Rightarrow> readDefaultMetaData sub m1 = Inr metadata'"
    by blast
  have "map fst m1 = map fst metadata"
    using readDefaultMetaData_keys [OF m1] .
  moreover have "map fst metadata' = map fst m1"
    using rest readDefaultMetaData_keys by (auto split: option.splits)
  ultimately have "fst ` set metadata' = fst ` set metadata"
    by (metis set_map)
  with assms(2) show ?thesis
    by (simp add: map_of_eq_None_iff)
qed

lemma readSpecificMetaData_ignores_other_property:
  assumes "other \<noteq> typeOperation" and "other \<notin> fst ` set metadata"
  shows "readSpecificMetaData (JObj (AList.update other x kvs)) typeOperation metadata
           = readSpecificMetaData (JObj kvs) typeOperation metadata"
proof -
  have "\<forall>k\<in>set (map fst metadata).
          own_property (JObj (AList.update other x kvs)) k = own_property (JObj kvs) k"
    using assms(2) by (auto simp: update_conv')
  then have "readDefaultMetaData (JObj (AList.update other x kvs)) metadata
               = readDefaultMetaData (JObj kvs) metadata"
    unfolding readDefaultMetaData_def by (intro forEach_key_cong) simp_all
  moreover have "own_property (JObj (AList.update other x kvs)) typeOperation
                   = own_property (JObj kvs) typeOperation"
    using assms(1) by (simp add: update_conv')
  then have "get_property (JObj (AList.update other x kvs)) typeOperation
                   = get_property (JObj kvs) typeOperation"
    by (simp add: get_property_def)
  ultimately show ?thesis
    by (simp only: readSpecificMetaData_def)
qed

lemma readSpecificMetaData_field_source:
  assumes "readSpecificMetaData node typeOperation metadata = Inr metadata'"
  shows "map_of metadata' k = map_of metadata k
       \<or> map_of metadata' k = truthy_field node k \<and> truthy_field node k \<noteq> None
       \<or> (\<exists>sub. truthy_field node typeOperation = Some sub
              \<and> map_of metadata' k = truthy_field sub k \<and> truthy_field sub k \<noteq> None)"
proof (cases "k \<in> fst ` set metadata")
  case True
  from readSpecificMetaData_field [OF assms True] show ?thesis
    by (auto split: option.splits)
next
  case False
  from False have "map_of metadata k = None"
    by (simp add: map_of_eq_None_iff)
  with readSpecificMetaData_other_key [OF assms False] show ?thesis
    by simp
qed

lemma truthy_field_is_truthy: "truthy_field node k \<noteq> None \<Longrightarrow> is_truthy (truthy_field node k)"
  by (auto simp: truthy_field_def is_truthy_def split: option.splits if_splits)

lemma for_of_consumes:
  assumes fn: "\<And>t m. truthy t \<Longrightarrow> \<exists>m'. fn t m = Inr m'"
  shows "truthy node \<Longrightarrow> walk_consumes node ws \<Longrightarrow> \<exists>m'. for_of ws node m fn = Inr (None, m')"
proof (induction ws arbitrary: node m)
  case Nil
  then show ?case by simp
next
  case (Cons w ws)
  from Cons.prems obtain child where child: "own_property node (toUpperCase w) = Some child"
    "truthy child" "walk_consumes child ws"
    by (auto split: option.splits)
  from fn [OF child(2)] obtain m1 where m1: "fn child m = Inr m1" by blast
  from Cons.IH [OF child(2) child(3)] obtain m2 where "for_of ws child m1 fn = Inr (None, m2)" by blast
  with child m1 Cons.prems(1) show ?case
    by (simp add: get_property_Inr truthy_not_null)
qed

lemma for_of_stops:
  assumes fn: "\<And>t m. truthy t \<Longrightarrow> \<exists>m'. fn t m = Inr m'"
  shows "truthy node \<Longrightarrow> \<not> walk_consumes node ws \<Longrightarrow> \<exists>m'. for_of ws node m fn = Inr (Some m', m')"
proof (induction ws arbitrary: node m)
  case Nil
  then show ?case by simp
next
  case (Cons w ws)
  show ?case
  proof (cases "own_property node (toUpperCase w)")
    case None
    with Cons.prems show ?thesis by (simp add: get_property_Inr truthy_not_null)
  next
    case (Some child)
    show ?thesis
    proof (cases "truthy child")
      case False
      with Some Cons.prems show ?thesis by (simp add: get_property_Inr truthy_not_null)
    next
      case True
      from fn [OF True] obtain m1 where m1: "fn child m = Inr m1" by blast
      from Cons.prems Some True have "\<not> walk_consumes child ws" by simp
      from Cons.IH [OF True this] obtain m2 where "for_of ws child m1 fn = Inr (Some m2, m2)" by blast
      with Some True m1 Cons.prems(1) show ?thesis
        by (simp add: get_property_Inr truthy_not_null)
    qed
  qed
qed


section \<open>Properties of the classification walk\<close>

lemmas walk_eval =
  findMetadataForCreditOperation_def findMetadataForDebitOperation_def classification_walk_def
  get_property_def readSpecificMetaData_def readDefaultMetaData_def
  toUpperCase_def toUpperCase_char_def lower_case_letters_def upper_case_letters_def
  example_tree_def VIR_node_def CARTE_node_def defaultMedataOperation_def

lemma classification_walk_matched:
  assumes "own_property classification (toUpperCase word0) = Some node" and "truthy node"
  shows "classification_walk classification (word0 # rest) metadata fn =
           (case fn node metadata of
              Inl e \<Rightarrow> Inl e
            | Inr metadata' \<Rightarrow>
                for_of (drop (if word0 = ''CARTE'' then 2 else 1) (word0 # rest)) node metadata' fn)"
proof -
  from assms(1) have "classification \<noteq> JNull" by auto
  with assms show ?thesis
    by (simp add: classification_walk_def get_property_Inr)
qed

lemma classification_walk_CARTE:
  assumes "own_property classification ''CARTE'' = Some node" and "truthy node"
  shows "classification_walk classification (''CARTE'' # rest) metadata fn =
           (case fn node metadata of
              Inl e \<Rightarrow> Inl e
            | Inr metadata' \<Rightarrow> for_of (drop 1 rest) node metadata' fn)"
proof -
  from assms(1) have "classification \<noteq> JNull" by auto
  moreover have "drop 2 (''CARTE'' # rest) = drop 1 rest"
    by (simp add: numeral_2_eq_2)
  ultimately show ?thesis
    using assms
    by (simp add: classification_walk_def get_property_Inr toUpperCase_CARTE split: sum.splits)
qed

lemma classification_walk_other:
  assumes "word0 \<noteq> ''CARTE''"
    and "own_property classification (toUpperCase word0) = Some node" and "truthy node"
  shows "classification_walk classification (word0 # rest) metadata fn =
           (case fn node metadata of
              Inl e \<Rightarrow> Inl e
            | Inr metadata' \<Rightarrow> for_of rest node metadata' fn)"
proof -
  from assms(2) have "classification \<noteq> JNull" by auto
  with assms show ?thesis
    by (simp add: classification_walk_def get_property_Inr split: sum.splits)
qed

text \<open>
  Claim C1. When the walk consumes every word (the first word is a root key and each
  word from the start index on is a child of the current node), the entry points should
  return the accumulated metadata. The code does not: the body of \<open>_classification\<close>
  ends after the loop without a \<open>return\<close>, so both entry points return \<open>undefined\<close>
  (\<open>None\<close>) exactly in this case. The accumulated metadata is left in the shared object.
\<close>

theorem exhausted_walk_returns_undefined:
  assumes "own_property classification (toUpperCase word0) = Some node"
    and "truthy node"
    and "walk_consumes node (drop (if word0 = ''CARTE'' then 2 else 1) (word0 # rest))"
  shows "(\<exists>store'. findMetadataForCreditOperation classification store (word0 # rest) = Inr (None, store'))
       \<and> (\<exists>store'. findMetadataForDebitOperation classification store (word0 # rest) = Inr (None, store'))"
proof -
  have walk: "\<exists>store'. classification_walk classification (word0 # rest) store
                 (\<lambda>tree metadata. readSpecificMetaData tree op metadata) = Inr (None, store')" for op
  proof -
    let ?fn = "\<lambda>tree metadata. readSpecificMetaData tree op metadata"
    have fn: "\<And>t m. truthy t \<Longrightarrow> \<exists>m'. ?fn t m = Inr m'"
      using readSpecificMetaData_Inr truthy_not_null by blast
    from fn [OF assms(2)] obtain m1 where m1: "?fn node store = Inr m1" by blast
    from for_of_consumes [of ?fn, OF fn assms(2) assms(3)]
    obtain m2 where "for_of (drop (if word0 = ''CARTE'' then 2 else 1) (word0 # rest)) node m1 ?fn
                       = Inr (None, m2)"
      by blast
    with m1 show ?thesis
      by (simp add: classification_walk_matched [OF assms(1) assms(2)])
  qed
  show ?thesis
    unfolding findMetadataForCreditOperation_def findMetadataForDebitOperation_def
    using walk by blast
qed

theorem exhausted_walk_returns_undefined_witness:
  "findMetadataForCreditOperation example_tree defaultMedataOperation [''VIR'']
     = Inr (None, [(''_id'', JStr ''5''), (''_proba'', JNum 90), (''_type'', JStr ''none'')])
   \<and> (\<exists>store'. findMetadataForDebitOperation example_tree defaultMedataOperation [''VIR'']
         = Inr (None, store'))"
proof -
  have root: "own_property example_tree (toUpperCase ''VIR'') = Some VIR_node"
    by (simp add: walk_eval)
  have truthy: "truthy VIR_node"
    by (simp add: VIR_node_def)
  have consumes: "walk_consumes VIR_node (drop (if ''VIR'' = ''CARTE'' then 2 else 1) (''VIR'' # []))"
    by simp
  have "findMetadataForCreditOperation example_tree defaultMedataOperation [''VIR'']
     = Inr (None, [(''_id'', JStr ''5''), (''_proba'', JNum 90), (''_type'', JStr ''none'')])"
    by (simp add: walk_eval)
  with exhausted_walk_returns_undefined [OF root truthy consumes, of defaultMedataOperation]
  show ?thesis by blast
qed

text \<open>
  A first word that matches no root returns the shared object as the calls before left
  it, whatever it holds.
\<close>

lemma unmatched_word_returns_the_store:
  assumes "classification \<noteq> JNull"
    and "\<not> is_truthy (own_property classification (toUpperCase word0))"
  shows "findMetadataForCreditOperation classification store (word0 # rest) = Inr (Some store, store)"
    and "findMetadataForDebitOperation classification store (word0 # rest) = Inr (Some store, store)"
  using assms
  by (auto simp: findMetadataForCreditOperation_def findMetadataForDebitOperation_def
      classification_walk_def get_property_Inr is_truthy_def split: option.splits)

text \<open>
  Claim C3. A call should start from the defaults \<open>_id = '0'\<close>, \<open>_proba = 0\<close>,
  \<open>_type = 'none'\<close> whatever calls came before, and repeating a call should repeat its
  result. The code passes the one object \<open>defaultMedataOperation\<close> to every walk and the
  walk writes into it, so each call starts from what the calls before it left. On the
  example tree: a debit call on \<open>VIR SALAIRE\<close> from the pristine object gives
  \<open>_proba = 0\<close>; after a credit call on the same words, the same debit call gives
  \<open>_proba = 90\<close>; and a word that matches no root then returns \<open>_id = '5'\<close>,
  \<open>_proba = 90\<close> instead of the defaults.
\<close>

theorem defaults_leak_between_calls:
  "findMetadataForDebitOperation example_tree defaultMedataOperation [''VIR'', ''SALAIRE'']
     = Inr (Some [(''_id'', JStr ''5''), (''_proba'', JNum 0), (''_type'', JStr ''none'')],
            [(''_id'', JStr ''5''), (''_proba'', JNum 0), (''_type'', JStr ''none'')])
   \<and> findMetadataForCreditOperation example_tree
         [(''_id'', JStr ''5''), (''_proba'', JNum 0), (''_type'', JStr ''none'')] [''VIR'', ''SALAIRE'']
     = Inr (Some [(''_id'', JStr ''5''), (''_proba'', JNum 90), (''_type'', JStr ''none'')],
            [(''_id'', JStr ''5''), (''_proba'', JNum 90), (''_type'', JStr ''none'')])
   \<and> findMetadataForDebitOperation example_tree
         [(''_id'', JStr ''5''), (''_proba'', JNum 90), (''_type'', JStr ''none'')] [''VIR'', ''SALAIRE'']
     = Inr (Some [(''_id'', JStr ''5''), (''_proba'', JNum 90), (''_type'', JStr ''none'')],
            [(''_id'', JStr ''5''), (''_proba'', JNum 90), (''_type'', JStr ''none'')])
   \<and> findMetadataForDebitOperation example_tree
         [(''_id'', JStr ''5''), (''_proba'', JNum 90), (''_type'', JStr ''none'')] [''PRLV'']
     = Inr (Some [(''_id'', JStr ''5''), (''_proba'', JNum 90), (''_type'', JStr ''none'')],
            [(''_id'', JStr ''5''), (''_proba'', JNum 90), (''_type'', JStr ''none'')])"
  by (simp add: walk_eval)

text \<open>
  Claim C5. When the first word is \<open>CARTE\<close>, the loop runs over the words from index 2
  on, starting at the \<open>CARTE\<close> node: the word of index 1 is never looked up and the
  result does not depend on it. For every other first word that matches a root, the loop
  runs over the words from index 1 on.
\<close>

theorem carte_walk_starts_at_index_2:
  "(own_property classification ''CARTE'' = Some node \<and> truthy node \<longrightarrow>
      classification_walk classification (''CARTE'' # second # rest) metadata fnReadMetadata
        = (case fnReadMetadata node metadata of
             Inl e \<Rightarrow> Inl e
           | Inr metadata' \<Rightarrow> for_of rest node metadata' fnReadMetadata))
   \<and> classification_walk classification (''CARTE'' # second # rest) metadata fnReadMetadata
        = classification_walk classification (''CARTE'' # other # rest) metadata fnReadMetadata
   \<and> (word0 \<noteq> ''CARTE'' \<and> own_property classification (toUpperCase word0) = Some node'
        \<and> truthy node' \<longrightarrow>
      classification_walk classification (word0 # rest) metadata fnReadMetadata
        = (case fnReadMetadata node' metadata of
             Inl e \<Rightarrow> Inl e
           | Inr metadata' \<Rightarrow> for_of rest node' metadata' fnReadMetadata))"
proof (intro conjI impI)
  assume "own_property classification ''CARTE'' = Some node \<and> truthy node"
  then have "own_property classification ''CARTE'' = Some node" "truthy node"
    by simp_all
  then show "classification_walk classification (''CARTE'' # second # rest) metadata fnReadMetadata
        = (case fnReadMetadata node metadata of
             Inl e \<Rightarrow> Inl e
           | Inr metadata' \<Rightarrow> for_of rest node metadata' fnReadMetadata)"
    by (simp add: classification_walk_CARTE split: sum.splits)
next
  show "classification_walk classification (''CARTE'' # second # rest) metadata fnReadMetadata
        = classification_walk classification (''CARTE'' # other # rest) metadata fnReadMetadata"
    by (simp add: classification_walk_def numeral_2_eq_2 split: sum.splits option.splits)
next
  assume "word0 \<noteq> ''CARTE'' \<and> own_property classification (toUpperCase word0) = Some node'
        \<and> truthy node'"
  then have "word0 \<noteq> ''CARTE''" "own_property classification (toUpperCase word0) = Some node'"
    "truthy node'"
    by simp_all
  then show "classification_walk classification (word0 # rest) metadata fnReadMetadata
        = (case fnReadMetadata node' metadata of
             Inl e \<Rightarrow> Inl e
           | Inr metadata' \<Rightarrow> for_of rest node' metadata' fnReadMetadata)"
    by (rule classification_walk_other)
qed

theorem carte_walk_starts_at_index_2_witness:
  "findMetadataForCreditOperation example_tree defaultMedataOperation
       [''CARTE'', ''1234'', ''RESTAURANT'', ''PARIS'']
     = Inr (Some [(''_id'', JStr ''8''), (''_proba'', JNum 50), (''_type'', JStr ''none'')],
            [(''_id'', JStr ''8''), (''_proba'', JNum 50), (''_type'', JStr ''none'')])
   \<and> findMetadataForCreditOperation example_tree defaultMedataOperation
       [''VIR'', ''1234'', ''RESTAURANT'', ''PARIS'']
     = Inr (Some [(''_id'', JStr ''5''), (''_proba'', JNum 90), (''_type'', JStr ''none'')],
            [(''_id'', JStr ''5''), (''_proba'', JNum 90), (''_type'', JStr ''none'')])"
proof -
  let ?fn = "\<lambda>tree metadata. readSpecificMetaData tree ''_credit'' metadata"
  let ?rest = "[''1234'', ''RESTAURANT'', ''PARIS'']"
  have carte: "own_property example_tree ''CARTE'' = Some CARTE_node \<and> truthy CARTE_node"
    by (simp add: example_tree_def CARTE_node_def)
  have vir: "''VIR'' \<noteq> ''CARTE'' \<and> own_property example_tree (toUpperCase ''VIR'') = Some VIR_node
       \<and> truthy VIR_node"
    by (simp add: walk_eval)
  from carte_walk_starts_at_index_2 [of example_tree CARTE_node "''1234''"
      "[''RESTAURANT'', ''PARIS'']" defaultMedataOperation ?fn] carte
  have "classification_walk example_tree [''CARTE'', ''1234'', ''RESTAURANT'', ''PARIS'']
          defaultMedataOperation ?fn
        = (case ?fn CARTE_node defaultMedataOperation of
             Inl e \<Rightarrow> Inl e
           | Inr metadata' \<Rightarrow> for_of [''RESTAURANT'', ''PARIS''] CARTE_node metadata' ?fn)"
    by blast
  moreover
  from carte_walk_starts_at_index_2 [of example_tree CARTE_node "''1234''" ?rest
      defaultMedataOperation ?fn "''1234''" "''VIR''" VIR_node] vir
  have "classification_walk example_tree (''VIR'' # ?rest) defaultMedataOperation ?fn
        = (case ?fn VIR_node defaultMedataOperation of
             Inl e \<Rightarrow> Inl e
           | Inr metadata' \<Rightarrow> for_of ?rest VIR_node metadata' ?fn)"
    by blast
  ultimately show ?thesis
    by (simp add: walk_eval)
qed

text \<open>
  Claim C10. The roots are matched on the upper-cased first word, but the extra skip
  compares the first word itself with \<open>'CARTE'\<close>: for a first word such as \<open>carte\<close> or
  \<open>Carte\<close> the \<open>CARTE\<close> node is found and the loop runs over the words from index 1 on;
  only for the first word \<open>CARTE\<close> itself it runs from index 2 on.
\<close>

theorem carte_skip_is_case_sensitive:
  "(toUpperCase word0 = ''CARTE'' \<and> word0 \<noteq> ''CARTE''
      \<and> own_property classification ''CARTE'' = Some node \<and> truthy node \<longrightarrow>
      classification_walk classification (word0 # rest) metadata fnReadMetadata
        = (case fnReadMetadata node metadata of
             Inl e \<Rightarrow> Inl e
           | Inr metadata' \<Rightarrow> for_of rest node metadata' fnReadMetadata))
   \<and> (own_property classification ''CARTE'' = Some node \<and> truthy node \<longrightarrow>
      classification_walk classification (''CARTE'' # rest) metadata fnReadMetadata
        = (case fnReadMetadata node metadata of
             Inl e \<Rightarrow> Inl e
           | Inr metadata' \<Rightarrow> for_of (drop 1 rest) node metadata' fnReadMetadata))"
proof (intro conjI impI)
  assume "toUpperCase word0 = ''CARTE'' \<and> word0 \<noteq> ''CARTE''
      \<and> own_property classification ''CARTE'' = Some node \<and> truthy node"
  then have "word0 \<noteq> ''CARTE''" "own_property classification (toUpperCase word0) = Some node"
    "truthy node"
    by simp_all
  then show "classification_walk classification (word0 # rest) metadata fnReadMetadata
        = (case fnReadMetadata node metadata of
             Inl e \<Rightarrow> Inl e
           | Inr metadata' \<Rightarrow> for_of rest node metadata' fnReadMetadata)"
    by (rule classification_walk_other)
next
  assume "own_property classification ''CARTE'' = Some node \<and> truthy node"
  then have "own_property classification ''CARTE'' = Some node" "truthy node"
    by simp_all
  then show "classification_walk classification (''CARTE'' # rest) metadata fnReadMetadata
        = (case fnReadMetadata node metadata of
             Inl e \<Rightarrow> Inl e
           | Inr metadata' \<Rightarrow> for_of (drop 1 rest) node metadata' fnReadMetadata)"
    by (rule classification_walk_CARTE)
qed

theorem carte_skip_is_case_sensitive_witness:
  "toUpperCase ''carte'' = ''CARTE''
   \<and> findMetadataForDebitOperation example_tree defaultMedataOperation
       [''carte'', ''1234'', ''RESTAURANT'', ''PARIS'']
     = Inr (Some [(''_id'', JStr ''9''), (''_proba'', JNum 0), (''_type'', JStr ''none'')],
            [(''_id'', JStr ''9''), (''_proba'', JNum 0), (''_type'', JStr ''none'')])
   \<and> findMetadataForDebitOperation example_tree defaultMedataOperation
       [''CARTE'', ''1234'', ''RESTAURANT'', ''PARIS'']
     = Inr (Some [(''_id'', JStr ''8''), (''_proba'', JNum 50), (''_type'', JStr ''none'')],
            [(''_id'', JStr ''8''), (''_proba'', JNum 50), (''_type'', JStr ''none'')])"
proof -
  let ?fn = "\<lambda>tree metadata. readSpecificMetaData tree ''_debit'' metadata"
  have lower: "toUpperCase ''carte'' = ''CARTE'' \<and> ''carte'' \<noteq> ''CARTE''
      \<and> own_property example_tree ''CARTE'' = Some CARTE_node \<and> truthy CARTE_node"
    by (simp add: walk_eval)
  note inst = carte_skip_is_case_sensitive [of "''carte''" example_tree CARTE_node
      "[''1234'', ''RESTAURANT'', ''PARIS'']" defaultMedataOperation ?fn]
  from inst lower
  have "classification_walk example_tree [''carte'', ''1234'', ''RESTAURANT'', ''PARIS'']
          defaultMedataOperation ?fn
        = (case ?fn CARTE_node defaultMedataOperation of
             Inl e \<Rightarrow> Inl e
           | Inr metadata' \<Rightarrow>
               for_of [''1234'', ''RESTAURANT'', ''PARIS''] CARTE_node metadata' ?fn)"
    by blast
  moreover from inst lower
  have "classification_walk example_tree [''CARTE'', ''1234'', ''RESTAURANT'', ''PARIS'']
          defaultMedataOperation ?fn
        = (case ?fn CARTE_node defaultMedataOperation of
             Inl e \<Rightarrow> Inl e
           | Inr metadata' \<Rightarrow>
               for_of (drop 1 [''1234'', ''RESTAURANT'', ''PARIS'']) CARTE_node metadata' ?fn)"
    by blast
  ultimately show ?thesis
    by (simp add: walk_eval)
qed


text \<open>
  The specification's example, each call made on the pristine object: as a credit,
  \<open>VIR SALAIRE\<close> gets the override \<open>_proba = 90\<close>; as a debit, only the default
  \<open>_id = '5'\<close> of the node.
\<close>

lemma VIR_example_credit:
  "findMetadataForCreditOperation example_tree defaultMedataOperation [''VIR'', ''SALAIRE'']
     = Inr (Some [(''_id'', JStr ''5''), (''_proba'', JNum 90), (''_type'', JStr ''none'')],
            [(''_id'', JStr ''5''), (''_proba'', JNum 90), (''_type'', JStr ''none'')])"
  by (simp add: walk_eval)

lemma VIR_example_debit:
  "findMetadataForDebitOperation example_tree defaultMedataOperation [''VIR'', ''SALAIRE'']
     = Inr (Some [(''_id'', JStr ''5''), (''_proba'', JNum 0), (''_type'', JStr ''none'')],
            [(''_id'', JStr ''5''), (''_proba'', JNum 0), (''_type'', JStr ''none'')])"
  by (simp add: walk_eval)

text \<open>
  Claim C9. A falsy value (\<open>0\<close>, \<open>''\<close>, \<open>false\<close>, \<open>null\<close>, or no value) never
  overwrites the accumulated metadata, among the node's own fields or in its
  sub-record: when neither holds a truthy value for a key, the key keeps its value; every
  value a read writes is truthy; so a truthy accumulated value is never replaced by a
  falsy one.
\<close>

theorem falsy_fields_never_overwrite:
  "readSpecificMetaData node typeOperation metadata = Inr metadata' \<longrightarrow>
     (truthy_field node k = None
        \<and> (truthy_field node typeOperation = None
             \<or> (\<exists>sub. truthy_field node typeOperation = Some sub \<and> truthy_field sub k = None))
       \<longrightarrow> map_of metadata' k = map_of metadata k)
   \<and> (map_of metadata' k = map_of metadata k \<or> is_truthy (map_of metadata' k))
   \<and> (is_truthy (map_of metadata k) \<longrightarrow> is_truthy (map_of metadata' k))"
proof (intro impI conjI)
  assume run: "readSpecificMetaData node typeOperation metadata = Inr metadata'"
  note src = readSpecificMetaData_field_source [OF run, of k]
  show either: "map_of metadata' k = map_of metadata k \<or> is_truthy (map_of metadata' k)"
    using src truthy_field_is_truthy by metis
  {
    assume "truthy_field node k = None
        \<and> (truthy_field node typeOperation = None
             \<or> (\<exists>sub. truthy_field node typeOperation = Some sub \<and> truthy_field sub k = None))"
    with src show "map_of metadata' k = map_of metadata k" by auto
  next
    assume "is_truthy (map_of metadata k)"
    with either show "is_truthy (map_of metadata' k)" by auto
  }
qed

theorem falsy_fields_never_overwrite_witness:
  "readSpecificMetaData
       (JObj [(''_id'', JStr []), (''_proba'', JNum 0), (''_type'', JNull),
              (''_debit'', JObj [(''_id'', JBool False), (''_proba'', JNum 0)])])
       ''_debit'' [(''_id'', JStr ''5''), (''_proba'', JNum 90), (''_type'', JStr ''none'')]
     = Inr [(''_id'', JStr ''5''), (''_proba'', JNum 90), (''_type'', JStr ''none'')]
   \<and> map_of [(''_id'', JStr ''5''), (''_proba'', JNum 90), (''_type'', JStr ''none'')] ''_proba''
       = Some (JNum 90)
   \<and> is_truthy (map_of [(''_id'', JStr ''5''), (''_proba'', JNum 90), (''_type'', JStr ''none'')]
         ''_proba'')"
proof -
  let ?node = "JObj [(''_id'', JStr []), (''_proba'', JNum 0), (''_type'', JNull),
              (''_debit'', JObj [(''_id'', JBool False), (''_proba'', JNum 0)])]"
  let ?m = "[(''_id'', JStr ''5''), (''_proba'', JNum 90), (''_type'', JStr ''none'')]"
  have run: "readSpecificMetaData ?node ''_debit'' ?m = Inr ?m"
    by (simp add: readSpecificMetaData_def readDefaultMetaData_def get_property_def)
  have falsy: "truthy_field ?node ''_proba'' = None
        \<and> (truthy_field ?node ''_debit'' = None
             \<or> (\<exists>sub. truthy_field ?node ''_debit'' = Some sub \<and> truthy_field sub ''_proba'' = None))"
    by (simp add: truthy_field_def)
  have raised: "is_truthy (map_of ?m ''_proba'')"
    by (simp add: is_truthy_def)
  note inst = falsy_fields_never_overwrite [of ?node "''_debit''" ?m ?m "''_proba''"]
  from inst run falsy have "map_of ?m ''_proba'' = map_of ?m ''_proba''" by blast
  moreover from inst run raised have "is_truthy (map_of ?m ''_proba'')" by blast
  ultimately show ?thesis using run by simp
qed

text \<open>
  A property of the metadata that every read keeps is kept by the loop and by the whole
  walk; and what they return, when it is not \<open>undefined\<close>, is the final content.
\<close>

lemma for_of_invariant:
  assumes fn: "\<And>t m m'. fn t m = Inr m' \<Longrightarrow> P m \<Longrightarrow> P m'"
  shows "for_of ws node m fn = Inr (r, m') \<Longrightarrow> P m \<Longrightarrow> P m' \<and> (r = None \<or> r = Some m')"
proof (induction ws arbitrary: node m)
  case Nil
  then show ?case by simp
next
  case (Cons w ws)
  show ?case
  proof (cases "get_property node (toUpperCase w)")
    case (Inl e)
    with Cons.prems show ?thesis by simp
  next
    case (Inr found)
    show ?thesis
    proof (cases "is_truthy found")
      case False
      with Inr Cons.prems show ?thesis
        by (auto simp: is_truthy_def split: option.splits if_splits)
    next
      case True
      then obtain tree where tree: "found = Some tree" "truthy tree"
        by (auto simp: is_truthy_def split: option.splits)
      with Inr Cons.prems(1) obtain m1 where m1: "fn tree m = Inr m1"
        and run: "for_of ws tree m1 fn = Inr (r, m')"
        by (auto split: sum.splits)
      from fn [OF m1 Cons.prems(2)] have "P m1" .
      from Cons.IH [OF run this] show ?thesis .
    qed
  qed
qed

lemma classification_walk_invariant:
  assumes fn: "\<And>t m m'. fn t m = Inr m' \<Longrightarrow> P m \<Longrightarrow> P m'"
    and run: "classification_walk classification words store fn = Inr (r, store')"
    and init: "P store"
  shows "P store' \<and> (r = None \<or> r = Some store')"
proof (cases words)
  case Nil
  with run show ?thesis by (simp add: classification_walk_def)
next
  case (Cons word0 rest)
  show ?thesis
  proof (cases "get_property classification (toUpperCase word0)")
    case (Inl e)
    with run Cons show ?thesis by (simp add: classification_walk_def)
  next
    case (Inr found)
    show ?thesis
    proof (cases "is_truthy found")
      case False
      with Inr run Cons init show ?thesis
        by (auto simp: classification_walk_def is_truthy_def split: option.splits if_splits)
    next
      case True
      then obtain tree where tree: "found = Some tree" "truthy tree"
        by (auto simp: is_truthy_def split: option.splits)
      with Inr run Cons obtain m1 where m1: "fn tree store = Inr m1"
        and loop: "for_of (drop (if word0 = ''CARTE'' then 2 else 1) words) tree m1 fn = Inr (r, store')"
        by (auto simp: classification_walk_def split: sum.splits)
      from fn [OF m1 init] have "P m1" .
      from for_of_invariant [of fn P, OF fn loop this] show ?thesis .
    qed
  qed
qed

lemma readSpecificMetaData_keeps_truthy:
  assumes "readSpecificMetaData node typeOperation m = Inr m'" and "is_truthy (map_of m k)"
  shows "is_truthy (map_of m' k)"
  using readSpecificMetaData_field_source [OF assms(1), of k] assms(2) truthy_field_is_truthy
  by metis

lemma readSpecificMetaData_keys:
  assumes "readSpecificMetaData node typeOperation m = Inr m'"
  shows "map fst m' = map fst m"
proof -
  from assms have "node \<noteq> JNull"
    using readSpecificMetaData_null by blast
  from readSpecificMetaData_cases [OF assms this]
  obtain m1 where m1: "readDefaultMetaData node m = Inr m1"
    and rest: "case truthy_field node typeOperation of
                 None \<Rightarrow> m' = m1
               | Some sub \<Rightarrow> readDefaultMetaData sub m1 = Inr m'"
    by blast
  have "map fst m' = map fst m1"
    using rest readDefaultMetaData_keys by (auto split: option.splits)
  with readDefaultMetaData_keys [OF m1] show ?thesis by simp
qed

text \<open>So no call resets a field that was raised before it.\<close>

lemma walk_never_resets_a_field:
  assumes "findMetadataForCreditOperation classification store words = Inr (r, store')
         \<or> findMetadataForDebitOperation classification store words = Inr (r, store')"
    and "is_truthy (map_of store k)"
  shows "is_truthy (map_of store' k)"
proof -
  have "is_truthy (map_of store' k)"
    if "classification_walk classification words store
          (\<lambda>tree metadata. readSpecificMetaData tree op metadata) = Inr (r, store')" for op
    using classification_walk_invariant
      [of "\<lambda>tree metadata. readSpecificMetaData tree op metadata"
          "\<lambda>m. is_truthy (map_of m k)", OF _ that assms(2)]
      readSpecificMetaData_keeps_truthy
    by blast
  with assms(1) show ?thesis
    unfolding findMetadataForCreditOperation_def findMetadataForDebitOperation_def
    by blast
qed

text \<open>
  A call neither adds nor removes a key of the shared object, and what it returns, when
  it returns an object, is the content it leaves in the shared object.
\<close>

lemma walk_keeps_the_keys:
  assumes "findMetadataForCreditOperation classification store words = Inr (r, store')
         \<or> findMetadataForDebitOperation classification store words = Inr (r, store')"
  shows "map fst store' = map fst store \<and> (r = None \<or> r = Some store')"
proof -
  have "map fst store' = map fst store \<and> (r = None \<or> r = Some store')"
    if "classification_walk classification words store
          (\<lambda>tree metadata. readSpecificMetaData tree op metadata) = Inr (r, store')" for op
    using classification_walk_invariant
      [of "\<lambda>tree metadata. readSpecificMetaData tree op metadata"
          "\<lambda>m. map fst m = map fst store", OF _ that]
      readSpecificMetaData_keys
    by simp
  with assms(1) show ?thesis
    unfolding findMetadataForCreditOperation_def findMetadataForDebitOperation_def
    by blast
qed

text \<open>
  What a walk leaves at a key is what the deepest matched node that offers a value for
  the key offers, else what was there. A property of a node other than the key and the
  polarity of the walk, such as the sub-record of the opposite polarity, is no part of
  the node's offer.
\<close>

lemma readSpecificMetaData_node_write:
  assumes "readSpecificMetaData node typeOperation metadata = Inr metadata'"
    and "k \<in> fst ` set metadata"
  shows "map_of metadata' k =
           (case node_write typeOperation node k of
              Some v \<Rightarrow> Some v
            | None \<Rightarrow> map_of metadata k)"
  using readSpecificMetaData_field [OF assms]
  by (simp add: node_write_def split: option.splits)

lemma for_of_path_write:
  assumes key: "k \<in> fst ` set m" and node: "truthy node"
  shows "\<exists>r m'. for_of ws node m (\<lambda>tree metadata. readSpecificMetaData tree op metadata) = Inr (r, m')
           \<and> map_of m' k =
               (case path_write op (matched_children node ws) k of
                  Some v \<Rightarrow> Some v
                | None \<Rightarrow> map_of m k)"
  using key node
proof (induction ws arbitrary: node m)
  case Nil
  then show ?case by simp
next
  case (Cons w ws)
  let ?fn = "\<lambda>tree metadata. readSpecificMetaData tree op metadata"
  from Cons.prems(2) have nn: "node \<noteq> JNull" by (rule truthy_not_null)
  show ?case
  proof (cases "truthy_field node (toUpperCase w)")
    case None
    with nn show ?thesis
      by (auto simp: get_property_Inr truthy_field_def split: option.splits if_splits)
  next
    case (Some child)
    then have child: "own_property node (toUpperCase w) = Some child" "truthy child"
      by (auto simp: truthy_field_def split: option.splits if_splits)
    from child(2) obtain m1 where m1: "readSpecificMetaData child op m = Inr m1"
      using readSpecificMetaData_Inr truthy_not_null by blast
    have w1: "map_of m1 k = (case node_write op child k of Some v \<Rightarrow> Some v | None \<Rightarrow> map_of m k)"
      using readSpecificMetaData_node_write [OF m1 Cons.prems(1)] .
    have "map fst m1 = map fst m"
      using m1 by (rule readSpecificMetaData_keys)
    then have k1: "k \<in> fst ` set m1"
      using Cons.prems(1) by (metis set_map)
    from Cons.IH [OF k1 child(2)] obtain r m' where
      run: "for_of ws child m1 ?fn = Inr (r, m')"
      and w2: "map_of m' k = (case path_write op (matched_children child ws) k of
                               Some v \<Rightarrow> Some v
                             | None \<Rightarrow> map_of m1 k)"
      by blast
    have "for_of (w # ws) node m ?fn = Inr (r, m')"
      using nn child m1 run by (simp add: get_property_Inr)
    moreover have "map_of m' k =
               (case path_write op (matched_children node (w # ws)) k of
                  Some v \<Rightarrow> Some v
                | None \<Rightarrow> map_of m k)"
      using child w1 w2 by (simp split: option.splits)
    ultimately show ?thesis by blast
  qed
qed

lemma classification_walk_path_write:
  assumes "classification \<noteq> JNull" and "words \<noteq> []" and key: "k \<in> fst ` set store"
  shows "\<exists>r store'. classification_walk classification words store
             (\<lambda>tree metadata. readSpecificMetaData tree op metadata) = Inr (r, store')
           \<and> map_of store' k =
               (case path_write op (matched_nodes classification words) k of
                  Some v \<Rightarrow> Some v
                | None \<Rightarrow> map_of store k)"
proof -
  let ?fn = "\<lambda>tree metadata. readSpecificMetaData tree op metadata"
  from assms(2) obtain word0 rest where words: "words = word0 # rest"
    by (cases words) auto
  let ?ws = "drop (if word0 = ''CARTE'' then 2 else 1) (word0 # rest)"
  show ?thesis
  proof (cases "truthy_field classification (toUpperCase word0)")
    case None
    with assms(1) words show ?thesis
      by (auto simp: classification_walk_def matched_nodes_def get_property_Inr truthy_field_def
          split: option.splits if_splits)
  next
    case (Some node)
    then have node: "own_property classification (toUpperCase word0) = Some node" "truthy node"
      by (auto simp: truthy_field_def split: option.splits if_splits)
    from node(2) obtain m1 where m1: "readSpecificMetaData node op store = Inr m1"
      using readSpecificMetaData_Inr truthy_not_null by blast
    have w1: "map_of m1 k = (case node_write op node k of Some v \<Rightarrow> Some v | None \<Rightarrow> map_of store k)"
      using readSpecificMetaData_node_write [OF m1 key] .
    have "map fst m1 = map fst store"
      using m1 by (rule readSpecificMetaData_keys)
    then have k1: "k \<in> fst ` set m1"
      using key by (metis set_map)
    from for_of_path_write [OF k1 node(2), of ?ws op] obtain r m' where
      run: "for_of ?ws node m1 ?fn = Inr (r, m')"
      and w2: "map_of m' k = (case path_write op (matched_children node ?ws) k of
                               Some v \<Rightarrow> Some v
                             | None \<Rightarrow> map_of m1 k)"
      by blast
    have "classification_walk classification words store ?fn = Inr (r, m')"
      using m1 run unfolding words
      by (simp add: classification_walk_matched [OF node])
    moreover have "matched_nodes classification words = node # matched_children node ?ws"
      using node by (simp add: matched_nodes_def words)
    then have "map_of m' k =
               (case path_write op (matched_nodes classification words) k of
                  Some v \<Rightarrow> Some v
                | None \<Rightarrow> map_of store k)"
      using w1 w2 by (simp split: option.splits)
    ultimately show ?thesis by blast
  qed
qed

lemma node_write_ignores_other_property:
  assumes "other \<noteq> typeOperation" and "other \<noteq> k"
  shows "node_write typeOperation (JObj (AList.update other x kvs)) k
           = node_write typeOperation (JObj kvs) k"
proof -
  have "truthy_field (JObj (AList.update other x kvs)) typeOperation
          = truthy_field (JObj kvs) typeOperation"
    using assms(1) by (simp add: truthy_field_def update_conv')
  moreover have "truthy_field (JObj (AList.update other x kvs)) k = truthy_field (JObj kvs) k"
    using assms(2) by (simp add: truthy_field_def update_conv')
  ultimately show ?thesis
    by (simp only: node_write_def)
qed

text \<open>
  Claim C6, as amended. On a tree that is not \<open>null\<close> and a non-empty list of words,
  findMetadataForCreditOperation applies at every matched node the node's own fields
  and then the fields of its \<open>_credit\<close> sub-record, findMetadataForDebitOperation the
  node's own fields and then the fields of its \<open>_debit\<close> sub-record, and in both only
  truthy values are written: for every key of the metadata, the call leaves the truthy
  value of the sub-record of its own polarity at the deepest matched node that has one
  or, where that node's sub-record has none, that node's own truthy value; a key for
  which no matched node has a truthy value keeps what the shared object held when the
  call started. The result of a credit names no \<open>_debit\<close> sub-record and the result
  of a debit no \<open>_credit\<close> sub-record. So on the root
  \<open>VIR\<close> with \<open>_id: '5'\<close> and \<open>_credit: {_proba: 90}\<close>, from the pristine defaults,
  \<open>VIR SALAIRE\<close> gets \<open>_proba = 90\<close> as a credit and keeps \<open>_proba = 0\<close> as a debit.
\<close>

theorem entry_points_apply_their_sub_record:
  "classification \<noteq> JNull \<and> words \<noteq> [] \<and> k \<in> fst ` set store \<longrightarrow>
     (\<exists>r store'. findMetadataForCreditOperation classification store words = Inr (r, store')
        \<and> map_of store' k =
            (case path_write ''_credit'' (matched_nodes classification words) k of
               Some v \<Rightarrow> Some v
             | None \<Rightarrow> map_of store k))
   \<and> (\<exists>r store'. findMetadataForDebitOperation classification store words = Inr (r, store')
        \<and> map_of store' k =
            (case path_write ''_debit'' (matched_nodes classification words) k of
               Some v \<Rightarrow> Some v
             | None \<Rightarrow> map_of store k))"
  unfolding findMetadataForCreditOperation_def findMetadataForDebitOperation_def
  using classification_walk_path_write by blast

theorem entry_points_apply_their_sub_record_witness:
  "findMetadataForCreditOperation override_tree defaultMedataOperation [''PRLV'', ''EDF'', ''LOYER'']
     = Inr (Some [(''_id'', JStr ''4''), (''_proba'', JNum 50), (''_type'', JStr ''none'')],
            [(''_id'', JStr ''4''), (''_proba'', JNum 50), (''_type'', JStr ''none'')])
   \<and> findMetadataForDebitOperation override_tree defaultMedataOperation [''PRLV'', ''EDF'', ''LOYER'']
     = Inr (Some [(''_id'', JStr ''6''), (''_proba'', JNum 10), (''_type'', JStr ''none'')],
            [(''_id'', JStr ''6''), (''_proba'', JNum 10), (''_type'', JStr ''none'')])
   \<and> (\<exists>r store'. findMetadataForCreditOperation override_tree defaultMedataOperation
                     [''PRLV'', ''EDF'', ''LOYER''] = Inr (r, store')
          \<and> map_of store' ''_proba'' = Some (JNum 50))
   \<and> (\<exists>r store'. findMetadataForDebitOperation override_tree defaultMedataOperation
                     [''PRLV'', ''EDF'', ''LOYER''] = Inr (r, store')
          \<and> map_of store' ''_proba'' = Some (JNum 10))
   \<and> (\<exists>r store'. findMetadataForCreditOperation override_tree defaultMedataOperation
                     [''PRLV'', ''EDF'', ''LOYER''] = Inr (r, store')
          \<and> map_of store' ''_id'' = Some (JStr ''4''))
   \<and> (\<exists>r store'. findMetadataForDebitOperation override_tree defaultMedataOperation
                     [''PRLV'', ''EDF'', ''LOYER''] = Inr (r, store')
          \<and> map_of store' ''_id'' = Some (JStr ''6''))
   \<and> (\<exists>r store'. findMetadataForCreditOperation example_tree defaultMedataOperation
                     [''VIR'', ''SALAIRE''] = Inr (r, store')
          \<and> map_of store' ''_proba'' = Some (JNum 90))
   \<and> (\<exists>r store'. findMetadataForDebitOperation example_tree defaultMedataOperation
                     [''VIR'', ''SALAIRE''] = Inr (r, store')
          \<and> map_of store' ''_proba'' = map_of defaultMedataOperation ''_proba'')"
proof -
  let ?words = "[''PRLV'', ''EDF'', ''LOYER'']"
  have nodes: "matched_nodes override_tree ?words = [PRLV_node, EDF_node]"
    by (simp add: matched_nodes_def override_tree_def PRLV_node_def EDF_node_def
        toUpperCase_def toUpperCase_char_def lower_case_letters_def upper_case_letters_def)
  have vir_nodes: "matched_nodes example_tree [''VIR'', ''SALAIRE''] = [VIR_node]"
    by (simp add: matched_nodes_def example_tree_def VIR_node_def CARTE_node_def
        toUpperCase_def toUpperCase_char_def lower_case_letters_def upper_case_letters_def)
  have writes:
    "path_write ''_credit'' [PRLV_node, EDF_node] ''_proba'' = Some (JNum 50)"
    "path_write ''_debit'' [PRLV_node, EDF_node] ''_proba'' = Some (JNum 10)"
    "path_write ''_credit'' [PRLV_node, EDF_node] ''_id'' = Some (JStr ''4'')"
    "path_write ''_debit'' [PRLV_node, EDF_node] ''_id'' = Some (JStr ''6'')"
    "path_write ''_credit'' [VIR_node] ''_proba'' = Some (JNum 90)"
    "path_write ''_debit'' [VIR_node] ''_proba'' = None"
    by (simp_all add: node_write_def truthy_field_def PRLV_node_def EDF_node_def VIR_node_def)
  have proba: "override_tree \<noteq> JNull \<and> ?words \<noteq> []
      \<and> ''_proba'' \<in> fst ` set defaultMedataOperation"
    by (simp add: override_tree_def defaultMedataOperation_def)
  have ident: "override_tree \<noteq> JNull \<and> ?words \<noteq> []
      \<and> ''_id'' \<in> fst ` set defaultMedataOperation"
    by (simp add: override_tree_def defaultMedataOperation_def)
  have vir: "example_tree \<noteq> JNull \<and> [''VIR'', ''SALAIRE''] \<noteq> []
      \<and> ''_proba'' \<in> fst ` set defaultMedataOperation"
    by (simp add: example_tree_def defaultMedataOperation_def)
  note p = entry_points_apply_their_sub_record
      [of override_tree ?words "''_proba''" defaultMedataOperation]
  note i = entry_points_apply_their_sub_record
      [of override_tree ?words "''_id''" defaultMedataOperation]
  note v = entry_points_apply_their_sub_record
      [of example_tree "[''VIR'', ''SALAIRE'']" "''_proba''" defaultMedataOperation]
  from p proba
  have "(\<exists>r store'. findMetadataForCreditOperation override_tree defaultMedataOperation ?words
            = Inr (r, store')
          \<and> map_of store' ''_proba'' =
              (case path_write ''_credit'' (matched_nodes override_tree ?words) ''_proba'' of
                 Some v \<Rightarrow> Some v
               | None \<Rightarrow> map_of defaultMedataOperation ''_proba''))
      \<and> (\<exists>r store'. findMetadataForDebitOperation override_tree defaultMedataOperation ?words
            = Inr (r, store')
          \<and> map_of store' ''_proba'' =
              (case path_write ''_debit'' (matched_nodes override_tree ?words) ''_proba'' of
                 Some v \<Rightarrow> Some v
               | None \<Rightarrow> map_of defaultMedataOperation ''_proba''))"
    by blast
  then have proba_results:
    "(\<exists>r store'. findMetadataForCreditOperation override_tree defaultMedataOperation ?words
            = Inr (r, store') \<and> map_of store' ''_proba'' = Some (JNum 50))
      \<and> (\<exists>r store'. findMetadataForDebitOperation override_tree defaultMedataOperation ?words
            = Inr (r, store') \<and> map_of store' ''_proba'' = Some (JNum 10))"
    unfolding nodes writes by simp
  from i ident
  have "(\<exists>r store'. findMetadataForCreditOperation override_tree defaultMedataOperation ?words
            = Inr (r, store')
          \<and> map_of store' ''_id'' =
              (case path_write ''_credit'' (matched_nodes override_tree ?words) ''_id'' of
                 Some v \<Rightarrow> Some v
               | None \<Rightarrow> map_of defaultMedataOperation ''_id''))
      \<and> (\<exists>r store'. findMetadataForDebitOperation override_tree defaultMedataOperation ?words
            = Inr (r, store')
          \<and> map_of store' ''_id'' =
              (case path_write ''_debit'' (matched_nodes override_tree ?words) ''_id'' of
                 Some v \<Rightarrow> Some v
               | None \<Rightarrow> map_of defaultMedataOperation ''_id''))"
    by blast
  then have id_results:
    "(\<exists>r store'. findMetadataForCreditOperation override_tree defaultMedataOperation ?words
            = Inr (r, store') \<and> map_of store' ''_id'' = Some (JStr ''4''))
      \<and> (\<exists>r store'. findMetadataForDebitOperation override_tree defaultMedataOperation ?words
            = Inr (r, store') \<and> map_of store' ''_id'' = Some (JStr ''6''))"
    unfolding nodes writes by simp
  from v vir
  have "(\<exists>r store'. findMetadataForCreditOperation example_tree defaultMedataOperation
            [''VIR'', ''SALAIRE''] = Inr (r, store')
          \<and> map_of store' ''_proba'' =
              (case path_write ''_credit'' (matched_nodes example_tree [''VIR'', ''SALAIRE''])
                      ''_proba'' of
                 Some v \<Rightarrow> Some v
               | None \<Rightarrow> map_of defaultMedataOperation ''_proba''))
      \<and> (\<exists>r store'. findMetadataForDebitOperation example_tree defaultMedataOperation
            [''VIR'', ''SALAIRE''] = Inr (r, store')
          \<and> map_of store' ''_proba'' =
              (case path_write ''_debit'' (matched_nodes example_tree [''VIR'', ''SALAIRE''])
                      ''_proba'' of
                 Some v \<Rightarrow> Some v
               | None \<Rightarrow> map_of defaultMedataOperation ''_proba''))"
    by blast
  then have vir_results:
    "(\<exists>r store'. findMetadataForCreditOperation example_tree defaultMedataOperation
            [''VIR'', ''SALAIRE''] = Inr (r, store') \<and> map_of store' ''_proba'' = Some (JNum 90))
      \<and> (\<exists>r store'. findMetadataForDebitOperation example_tree defaultMedataOperation
            [''VIR'', ''SALAIRE''] = Inr (r, store')
          \<and> map_of store' ''_proba'' = map_of defaultMedataOperation ''_proba'')"
    unfolding vir_nodes writes by simp
  note proba_results id_results vir_results
  moreover
  have "findMetadataForCreditOperation override_tree defaultMedataOperation ?words
     = Inr (Some [(''_id'', JStr ''4''), (''_proba'', JNum 50), (''_type'', JStr ''none'')],
            [(''_id'', JStr ''4''), (''_proba'', JNum 50), (''_type'', JStr ''none'')])"
    by (simp add: walk_eval override_tree_def PRLV_node_def EDF_node_def)
  moreover
  have "findMetadataForDebitOperation override_tree defaultMedataOperation ?words
     = Inr (Some [(''_id'', JStr ''6''), (''_proba'', JNum 10), (''_type'', JStr ''none'')],
            [(''_id'', JStr ''6''), (''_proba'', JNum 10), (''_type'', JStr ''none'')])"
    by (simp add: walk_eval override_tree_def PRLV_node_def EDF_node_def)
  ultimately show ?thesis by blast
qed

text \<open>
  As the claim had it, every field of the sub-record overwrites. On the node \<open>PRLV\<close>
  with \<open>_proba: 50\<close> and \<open>_credit: {_proba: 0}\<close> that reading gives \<open>_proba = 0\<close> for a
  credit; the code keeps 50, because \<open>if (treeMetadata[key])\<close> lets no falsy value
  through.
\<close>

theorem falsy_override_counterexample:
  "findMetadataForCreditOperation override_tree defaultMedataOperation [''PRLV'', ''LOYER'']
     = Inr (Some [(''_id'', JStr ''3''), (''_proba'', JNum 50), (''_type'', JStr ''none'')],
            [(''_id'', JStr ''3''), (''_proba'', JNum 50), (''_type'', JStr ''none'')])
   \<and> spec_readSpecificMetaData PRLV_node ''_credit'' defaultMedataOperation
     = [(''_id'', JStr ''3''), (''_proba'', JNum 0), (''_type'', JStr ''none'')]
   \<and> findMetadataForCreditOperation override_tree defaultMedataOperation [''PRLV'', ''LOYER'']
     \<noteq> Inr (Some (spec_readSpecificMetaData PRLV_node ''_credit'' defaultMedataOperation),
            spec_readSpecificMetaData PRLV_node ''_credit'' defaultMedataOperation)"
  by (simp add: walk_eval override_tree_def PRLV_node_def EDF_node_def spec_readSpecificMetaData_def)

text \<open>
  On a tree that is not \<open>null\<close> and a non-empty list of words the entry points raise no
  exception: every property read is behind a truthiness test.
\<close>

lemma classification_never_raises:
  assumes "classification \<noteq> JNull" and "words \<noteq> []"
  shows "(\<exists>r. findMetadataForCreditOperation classification store words = Inr r)
       \<and> (\<exists>r. findMetadataForDebitOperation classification store words = Inr r)"
proof -
  have walk: "\<exists>r. classification_walk classification words store
                 (\<lambda>tree metadata. readSpecificMetaData tree op metadata) = Inr r" for op
  proof -
    let ?fn = "\<lambda>tree metadata. readSpecificMetaData tree op metadata"
    have fn: "\<And>t m. truthy t \<Longrightarrow> \<exists>m'. ?fn t m = Inr m'"
      using readSpecificMetaData_Inr truthy_not_null by blast
    from assms(2) obtain word0 rest where words: "words = word0 # rest"
      by (cases words) auto
    show ?thesis
    proof (cases "is_truthy (own_property classification (toUpperCase word0))")
      case False
      with assms(1) words show ?thesis
        by (auto simp: classification_walk_def get_property_Inr is_truthy_def split: option.splits)
    next
      case True
      then obtain node where node: "own_property classification (toUpperCase word0) = Some node"
        "truthy node"
        by (auto simp: is_truthy_def split: option.splits)
      from fn [OF node(2)] obtain m1 where m1: "?fn node store = Inr m1" by blast
      let ?ws = "drop (if word0 = ''CARTE'' then 2 else 1) (word0 # rest)"
      have "\<exists>r. for_of ?ws node m1 ?fn = Inr r"
        using for_of_consumes [of ?fn node ?ws m1, OF fn node(2)]
          for_of_stops [of ?fn node ?ws m1, OF fn node(2)]
        by (cases "walk_consumes node ?ws") blast+
      with m1 words show ?thesis
        by (simp add: classification_walk_matched [OF node])
    qed
  qed
  show ?thesis
    unfolding findMetadataForCreditOperation_def findMetadataForDebitOperation_def
    using walk by blast
qed


section \<open>Properties of getAccountTypeFromCSS\<close>

lemma split_first: "split separator s \<noteq> [] \<and> hd (split separator s) = takeWhile (\<lambda>c. c \<noteq> separator) s"
  by (induction s) (auto split: list.splits)

lemma getAccountTypeFromCSS_first_class:
  "getAccountTypeFromCSS cssClasses =
     (case literal_property AbbrToAccountType (first_class cssClasses) of
        Some v \<Rightarrow> v
      | None \<Rightarrow> Own UNKNOWN)"
proof -
  obtain c cs where "split CHR '' '' cssClasses = c # cs"
    using split_first [of "CHR '' ''" cssClasses] by (cases "split CHR '' '' cssClasses") auto
  moreover from this have "c = first_class cssClasses"
    using split_first [of "CHR '' ''" cssClasses] by (simp add: first_class_def)
  ultimately show ?thesis
    by (simp add: getAccountTypeFromCSS_def)
qed

lemma AbbrToAccountType_keys:
  "set (map fst AbbrToAccountType) \<inter> set object_prototype_keys = {}"
  by (simp add: AbbrToAccountType_def object_prototype_keys_def)

text \<open>
  A first class that names a property of \<open>Object.prototype\<close> is found there: the
  function then returns that inherited member, not a descriptor.
\<close>

lemma getAccountTypeFromCSS_inherited:
  "getAccountTypeFromCSS ''constructor'' = Inherited ''constructor''
   \<and> getAccountTypeFromCSS ''toString compte'' = Inherited ''toString''"
  by (simp add: getAccountTypeFromCSS_def literal_property_def AbbrToAccountType_def
      object_prototype_keys_def)

text \<open>
  Claim C7, as amended. The first class is what precedes the first space character
  (other white space does not separate classes). getAccountTypeFromCSS returns the
  descriptor of the table for each of the eight abbreviations, and the Unknown
  descriptor for every other first class that is not the name of a property inherited
  from \<open>Object.prototype\<close>; it raises no error. As the claim had it, with classes
  separated by any white space, it fails on \<open>cco\<close>, TAB, \<open>compte\<close>: the first token is
  \<open>cco\<close>, the result is Unknown.
\<close>

theorem getAccountTypeFromCSS_first_class_lookup:
  "(first_class cssClasses \<in> {''cco'', ''esp''} \<longrightarrow> getAccountTypeFromCSS cssClasses = Own CHECKINGS)
   \<and> (first_class cssClasses \<in> {''liv_a'', ''liv_d'', ''liv_p''} \<longrightarrow>
        getAccountTypeFromCSS cssClasses = Own SAVINGS)
   \<and> (first_class cssClasses \<in> {''ord'', ''pea''} \<longrightarrow> getAccountTypeFromCSS cssClasses = Own MARKET)
   \<and> (first_class cssClasses = ''vie'' \<longrightarrow> getAccountTypeFromCSS cssClasses = Own LIFEINSURANCE)
   \<and> (first_class cssClasses \<notin> set (map fst AbbrToAccountType)
        \<and> first_class cssClasses \<notin> set object_prototype_keys \<longrightarrow>
        getAccountTypeFromCSS cssClasses = Own UNKNOWN)"
proof (intro conjI impI)
  assume "first_class cssClasses \<in> {''cco'', ''esp''}"
  then show "getAccountTypeFromCSS cssClasses = Own CHECKINGS"
    by (auto simp: getAccountTypeFromCSS_first_class literal_property_def AbbrToAccountType_def)
next
  assume "first_class cssClasses \<in> {''liv_a'', ''liv_d'', ''liv_p''}"
  then show "getAccountTypeFromCSS cssClasses = Own SAVINGS"
    by (auto simp: getAccountTypeFromCSS_first_class literal_property_def AbbrToAccountType_def)
next
  assume "first_class cssClasses \<in> {''ord'', ''pea''}"
  then show "getAccountTypeFromCSS cssClasses = Own MARKET"
    by (auto simp: getAccountTypeFromCSS_first_class literal_property_def AbbrToAccountType_def)
next
  assume "first_class cssClasses = ''vie''"
  then show "getAccountTypeFromCSS cssClasses = Own LIFEINSURANCE"
    by (auto simp: getAccountTypeFromCSS_first_class literal_property_def AbbrToAccountType_def)
next
  assume a: "first_class cssClasses \<notin> set (map fst AbbrToAccountType)
        \<and> first_class cssClasses \<notin> set object_prototype_keys"
  then have "map_of AbbrToAccountType (first_class cssClasses) = None"
    by (simp add: map_of_eq_None_iff)
  with a show "getAccountTypeFromCSS cssClasses = Own UNKNOWN"
    by (simp add: getAccountTypeFromCSS_first_class literal_property_def)
qed

theorem getAccountTypeFromCSS_first_class_lookup_witness:
  "getAccountTypeFromCSS ''cco compte'' = Own CHECKINGS
   \<and> getAccountTypeFromCSS ''liv_a compte'' = Own SAVINGS
   \<and> getAccountTypeFromCSS ''pea'' = Own MARKET
   \<and> getAccountTypeFromCSS ''vie compte'' = Own LIFEINSURANCE
   \<and> getAccountTypeFromCSS ''xyz'' = Own UNKNOWN"
proof -
  have cco: "first_class ''cco compte'' \<in> {''cco'', ''esp''}"
    by (simp add: first_class_def)
  have liv: "first_class ''liv_a compte'' \<in> {''liv_a'', ''liv_d'', ''liv_p''}"
    by (simp add: first_class_def)
  have pea: "first_class ''pea'' \<in> {''ord'', ''pea''}"
    by (simp add: first_class_def)
  have vie: "first_class ''vie compte'' = ''vie''"
    by (simp add: first_class_def)
  have xyz: "first_class ''xyz'' \<notin> set (map fst AbbrToAccountType)
        \<and> first_class ''xyz'' \<notin> set object_prototype_keys"
    by (simp add: first_class_def AbbrToAccountType_def object_prototype_keys_def)
  from getAccountTypeFromCSS_first_class_lookup [of "''cco compte''"] cco
  have "getAccountTypeFromCSS ''cco compte'' = Own CHECKINGS" by blast
  moreover from getAccountTypeFromCSS_first_class_lookup [of "''liv_a compte''"] liv
  have "getAccountTypeFromCSS ''liv_a compte'' = Own SAVINGS" by blast
  moreover from getAccountTypeFromCSS_first_class_lookup [of "''pea''"] pea
  have "getAccountTypeFromCSS ''pea'' = Own MARKET" by blast
  moreover from getAccountTypeFromCSS_first_class_lookup [of "''vie compte''"] vie
  have "getAccountTypeFromCSS ''vie compte'' = Own LIFEINSURANCE" by blast
  moreover from getAccountTypeFromCSS_first_class_lookup [of "''xyz''"] xyz
  have "getAccountTypeFromCSS ''xyz'' = Own UNKNOWN" by blast
  ultimately show ?thesis by simp
qed

text \<open>
  The input \<open>cco\<close>, TAB, \<open>compte\<close>: its first white-space-separated token is \<open>cco\<close>,
  which the table maps to Checkings, and the function returns Unknown.
\<close>

theorem tab_separated_classes_counterexample:
  "spec_first_token (''cco'' @ CHR 0x09 # ''compte'') = ''cco''
   \<and> map_of AbbrToAccountType ''cco'' = Some CHECKINGS
   \<and> getAccountTypeFromCSS (''cco'' @ CHR 0x09 # ''compte'') = Own UNKNOWN
   \<and> getAccountTypeFromCSS (''cco'' @ CHR 0x09 # ''compte'') \<noteq> Own CHECKINGS"
  by (simp add: spec_first_token_def isWhiteSpace_def AbbrToAccountType_def
      getAccountTypeFromCSS_def literal_property_def object_prototype_keys_def
      UNKNOWN_def CHECKINGS_def)


section \<open>Properties of handleRequestErrors\<close>

text \<open>
  Claim C8. handleRequestErrors throws the error \<open>VENDOR_DOWN\<close> exactly when the error
  it is given is an instance of RequestError or of StatusCodeError (and logs that error
  first); for every other value it returns a promise rejected with that same value.
\<close>

theorem handleRequestErrors_translation:
  "(fst (handleRequestErrors err) = Throws (ErrorObject [''Error''] VENDOR_DOWN)
      \<longleftrightarrow> instanceof err ''RequestError'' \<or> instanceof err ''StatusCodeError'')
   \<and> (instanceof err ''RequestError'' \<or> instanceof err ''StatusCodeError'' \<longrightarrow>
        handleRequestErrors err = (Throws (ErrorObject [''Error''] VENDOR_DOWN), [(''error'', err)]))
   \<and> (\<not> (instanceof err ''RequestError'' \<or> instanceof err ''StatusCodeError'') \<longrightarrow>
        handleRequestErrors err = (ReturnsRejected err, []))"
  by (simp add: handleRequestErrors_def)

theorem handleRequestErrors_translation_witness:
  "handleRequestErrors (ErrorObject [''StatusCodeError'', ''Error'', ''Object''] ''404 - Not Found'')
     = (Throws (ErrorObject [''Error''] VENDOR_DOWN),
        [(''error'', ErrorObject [''StatusCodeError'', ''Error'', ''Object''] ''404 - Not Found'')])
   \<and> handleRequestErrors (ErrorObject [''TypeError'', ''Error'', ''Object''] ''x is undefined'')
     = (ReturnsRejected (ErrorObject [''TypeError'', ''Error'', ''Object''] ''x is undefined''), [])
   \<and> handleRequestErrors (OtherValue (JStr ''LOGIN_FAILED''))
     = (ReturnsRejected (OtherValue (JStr ''LOGIN_FAILED'')), [])"
proof -
  let ?status = "ErrorObject [''StatusCodeError'', ''Error'', ''Object''] ''404 - Not Found''"
  let ?type = "ErrorObject [''TypeError'', ''Error'', ''Object''] ''x is undefined''"
  let ?other = "OtherValue (JStr ''LOGIN_FAILED'')"
  have transport: "instanceof ?status ''RequestError'' \<or> instanceof ?status ''StatusCodeError''"
    by simp
  have no1: "\<not> (instanceof ?type ''RequestError'' \<or> instanceof ?type ''StatusCodeError'')"
    by simp
  have no2: "\<not> (instanceof ?other ''RequestError'' \<or> instanceof ?other ''StatusCodeError'')"
    by simp
  from handleRequestErrors_translation [of ?status] transport
  have "handleRequestErrors ?status = (Throws (ErrorObject [''Error''] VENDOR_DOWN), [(''error'', ?status)])"
    by blast
  moreover from handleRequestErrors_translation [of ?type] no1
  have "handleRequestErrors ?type = (ReturnsRejected ?type, [])"
    by blast
  moreover from handleRequestErrors_translation [of ?other] no2
  have "handleRequestErrors ?other = (ReturnsRejected ?other, [])"
    by blast
  ultimately show ?thesis by simp
qed


section \<open>Properties of normalizeAmount\<close>

lemma normalizeAmount_raises: "normalizeAmount amount = Inl TypeError"
  by (simp add: normalizeAmount_def replaceAll_def whitespace_regexp_def)

text \<open>
  The helpers after \<open>replaceAll\<close> do what the pipeline is meant to do: had the regular
  expression carried the \<open>g\<close> flag, \<open>"1 234,56 "\<close> would have been read as 1234.56.
\<close>

lemma replaceAll_global_strips:
  "replaceAll (whitespace_regexp\<lparr>global := True\<rparr>) '''' ''1 234,56 '' = Inr ''1234,56''"
  by (simp add: replaceAll_def whitespace_regexp_def isWhiteSpace_def)

lemma parseFloat_example: "parseFloat (trim (replace '','' ''.'' ''1234,56'')) = Num (123456 / 100)"
  by (simp add: trim_def parseFloat_def split_sign_def isWhiteSpace_def isDigit_def
      exponent_part_def digits_value_def)

text \<open>
  Claim C2. For a locale-formatted amount such as \<open>"1 234,56 "\<close> normalizeAmount should
  return the number 1234.56. It does not: \<open>replaceAll\<close> is called with the regular
  expression \<open>/\s/\<close>, which has no \<open>g\<close> flag, and raises a TypeError before anything is
  parsed.
\<close>

theorem normalizeAmount_locale_amount_raises:
  "normalizeAmount ''1 234,56 '' = Inl TypeError"
  by (simp add: normalizeAmount_def replaceAll_def whitespace_regexp_def)

text \<open>
  Claim C4. normalizeAmount should return a number for every string, not-a-number for
  \<open>"abc"\<close>, and never throw. It throws for every string (lemma
  \<open>normalizeAmount_raises\<close>), for the reason given at claim C2; on \<open>"abc"\<close> the result is
  the TypeError. The other half of the claim holds: the classification entry points
  raise nothing on a non-empty list of words (lemma \<open>classification_never_raises\<close>).
\<close>

theorem normalizeAmount_abc_raises: "normalizeAmount ''abc'' = Inl TypeError"
  by (simp add: normalizeAmount_def replaceAll_def whitespace_regexp_def)

end
